theory Spec2Isabelle
  imports Complex_Main
begin

section \<open>Data model\<close>

text \<open>
  The relational schema of the salon leave system (the Prisma migrations) and the
  TypeScript types of \<^verbatim>\<open>src/lib/quota.ts\<close>. Enumerations are datatypes, rows are
  records, tables are lists of rows in storage order. JavaScript numbers are modelled as
  reals. User and store ids are strings; leave request ids (cuid strings generated by the
  database) are numbered by a counter kept in the database state.
\<close>

datatype Role = DESIGNER | ASSISTANT | ROOKIE | MANAGER

datatype LeaveRequestStatus = PENDING | APPROVED | REJECTED | CANCELED

datatype LeaveRequestSource = SELF | BINDING_MIRROR | SOURCE_MANAGER | SYSTEM

datatype ApprovalAction = APPROVE | REJECT | FORCE_APPROVE

text \<open>
  The \<^verbatim>\<open>value\<close> member of a parsed \<^verbatim>\<open>valueJson\<close> column, by its JavaScript
  \<^verbatim>\<open>typeof\<close>.
\<close>

datatype JsonValue = JNumber real | JBoolean bool | JString string | JNull | JOther

record Store =
  s_id :: string
  s_timezone :: string

record User =
  u_id :: string
  u_storeId :: string
  u_displayName :: string
  u_role :: Role
  u_active :: bool
  u_baseDemand :: "real option"
  u_baseSupply :: "real option"

text \<open>
  \<open>c_valueJson\<close> is the result of \<^verbatim>\<open>JSON.parse(row.valueJson)\<close> followed by
  \<^verbatim>\<open>hasValue\<close>: \<open>None\<close> when parsing throws or the parsed value is not an object with a
  \<^verbatim>\<open>value\<close> member, otherwise that member.
\<close>

record Config =
  c_storeId :: string
  c_key :: string
  c_valueJson :: "JsonValue option"
  c_effectiveFrom :: "string option"

record Binding =
  b_storeId :: string
  b_assistantId :: string
  b_designerId :: string
  b_active :: bool

record LeaveRequest =
  lr_id :: nat
  lr_storeId :: string
  lr_userId :: string
  lr_date :: string
  lr_status :: LeaveRequestStatus
  lr_source :: LeaveRequestSource
  lr_createdByUserId :: "string option"
  lr_linkedToId :: "nat option"

record Approval =
  a_storeId :: string
  a_leaveRequestId :: nat
  a_managerId :: string
  a_action :: ApprovalAction
  a_reason :: "string option"

record DesignerDemandOverride =
  o_storeId :: string
  o_designerId :: string
  o_date :: string
  o_demand :: real

record RookieBooking =
  rb_storeId :: string
  rb_rookieId :: string
  rb_date :: string

record Db =
  t_store :: "Store list"
  t_user :: "User list"
  t_config :: "Config list"
  t_binding :: "Binding list"
  t_leaveRequest :: "LeaveRequest list"
  t_approval :: "Approval list"
  t_designerDemandOverride :: "DesignerDemandOverride list"
  t_rookieBooking :: "RookieBooking list"
  nextId :: nat

text \<open>
  The platform: the clock and \<^verbatim>\<open>Intl.DateTimeFormat\<close>. \<open>dayOfMonthInTimeZone\<close> gives
  today's day of the month in a time zone, \<open>weekdayInTimeZone\<close> the short English weekday
  name of an ISO date in a time zone.
\<close>

record Env =
  dayOfMonthInTimeZone :: "string \<Rightarrow> real"
  weekdayInTimeZone :: "string \<Rightarrow> string \<Rightarrow> string"

section \<open>Strings and dates (\<^verbatim>\<open>src/lib/date.ts\<close>)\<close>

definition isDigit :: "char \<Rightarrow> bool" where
  "isDigit c = (c \<in> set ''0123456789'')"

text \<open>\<^verbatim>\<open>/^\d{4}-\d{2}-\d{2}$/.test(value)\<close>\<close>

definition isIsoDate :: "string \<Rightarrow> bool" where
  "isIsoDate s =
     (length s = 10 \<and> list_all isDigit (take 4 s) \<and> s ! 4 = CHR ''-'' \<and>
      list_all isDigit (take 2 (drop 5 s)) \<and> s ! 7 = CHR ''-'' \<and>
      list_all isDigit (drop 8 s))"

text \<open>\<^verbatim>\<open>/^\d{4}-\d{2}$/.test(value)\<close>\<close>

definition isIsoMonth :: "string \<Rightarrow> bool" where
  "isIsoMonth s =
     (length s = 7 \<and> list_all isDigit (take 4 s) \<and> s ! 4 = CHR ''-'' \<and>
      list_all isDigit (drop 5 s))"

definition digitVal :: "char \<Rightarrow> nat" where
  "digitVal c = length (takeWhile (\<lambda>x. x \<noteq> c) ''0123456789'')"

text \<open>\<^verbatim>\<open>Number(v)\<close> on a string of decimal digits.\<close>

definition parseNat :: "string \<Rightarrow> nat" where
  "parseNat s = foldl (\<lambda>a c. 10 * a + digitVal c) 0 s"

definition isLeapYear :: "nat \<Rightarrow> bool" where
  "isLeapYear y = (y mod 4 = 0 \<and> (y mod 100 \<noteq> 0 \<or> y mod 400 = 0))"

definition monthLength :: "nat \<Rightarrow> nat \<Rightarrow> nat" where
  "monthLength y m =
     (if m = 2 then (if isLeapYear y then 29 else 28)
      else if m = 4 \<or> m = 6 \<or> m = 9 \<or> m = 11 then 30 else 31)"

text \<open>
  \<^verbatim>\<open>new Date(Date.UTC(y, m, 0)).getUTCDate()\<close>: day 0 of month index \<open>m\<close> is the last
  day of the month before it; month indices beyond 11 carry into the year, and
  \<^verbatim>\<open>Date.UTC\<close> reads a year from 0 to 99 as 1900 plus that year.
\<close>

definition utcDayZero :: "nat \<Rightarrow> nat \<Rightarrow> nat" where
  "utcDayZero y m =
     (let y' = (if y \<le> 99 then 1900 + y else y)
      in if m = 0 then 31 else monthLength (y' + (m - 1) div 12) ((m - 1) mod 12 + 1))"

text \<open>
  Both callers pass a month that matches \<^verbatim>\<open>/^\d{4}-\d{2}$/\<close> (the availability route
  tests it, the leave route slices it from a checked ISO date). Other strings are outside
  the model, which gives them no days.
\<close>

definition daysInMonth :: "string \<Rightarrow> nat" where
  "daysInMonth yyyyMm =
     (if isIsoMonth yyyyMm
      then utcDayZero (parseNat (take 4 yyyyMm)) (parseNat (drop 5 yyyyMm))
      else 0)"

text \<open>\<^verbatim>\<open>String(n)\<close> for a natural number.\<close>

fun showNat :: "nat \<Rightarrow> string" where
  "showNat n =
     (if n < 10 then [''0123456789'' ! n]
      else showNat (n div 10) @ [''0123456789'' ! (n mod 10)])"

declare showNat.simps [simp del]

definition pad2 :: "nat \<Rightarrow> string" where
  "pad2 n = (let s = showNat n in replicate (2 - length s) (CHR ''0'') @ s)"

definition dateFromMonthDay :: "string \<Rightarrow> nat \<Rightarrow> string" where
  "dateFromMonthDay yyyyMm day = yyyyMm @ ''-'' @ pad2 day"

text \<open>\<^verbatim>\<open>s.startsWith(p)\<close>, also the \<^verbatim>\<open>startsWith\<close> filter of a query.\<close>

definition startsWith :: "string \<Rightarrow> string \<Rightarrow> bool" where
  "startsWith p s = (take (length p) s = p)"

text \<open>\<^verbatim>\<open>s.split(",")\<close>: the empty string splits into one empty piece.\<close>

fun splitOn :: "char \<Rightarrow> string \<Rightarrow> string list" where
  "splitOn c [] = [[]]"
| "splitOn c (x # xs) =
     (if x = c then [] # splitOn c xs
      else (case splitOn c xs of [] \<Rightarrow> [[x]] | w # ws \<Rightarrow> (x # w) # ws))"

definition isSpace :: "char \<Rightarrow> bool" where
  "isSpace c = (c \<in> set [CHR '' '', CHR 0x09, CHR 0x0A, CHR 0x0B, CHR 0x0C, CHR 0x0D])"

text \<open>\<^verbatim>\<open>s.trim()\<close> on ASCII text.\<close>

definition trim :: "string \<Rightarrow> string" where
  "trim s = rev (dropWhile isSpace (rev (dropWhile isSpace s)))"

definition upperChar :: "char \<Rightarrow> char" where
  "upperChar c =
     (case map_of (zip ''abcdefghijklmnopqrstuvwxyz'' ''ABCDEFGHIJKLMNOPQRSTUVWXYZ'') c of
        Some C \<Rightarrow> C | None \<Rightarrow> c)"

definition lowerChar :: "char \<Rightarrow> char" where
  "lowerChar c =
     (case map_of (zip ''ABCDEFGHIJKLMNOPQRSTUVWXYZ'' ''abcdefghijklmnopqrstuvwxyz'') c of
        Some C \<Rightarrow> C | None \<Rightarrow> c)"

text \<open>\<^verbatim>\<open>toUpperCase\<close> and \<^verbatim>\<open>toLowerCase\<close> on ASCII text.\<close>

definition toUpperCase :: "string \<Rightarrow> string" where
  "toUpperCase s = map upperChar s"

definition toLowerCase :: "string \<Rightarrow> string" where
  "toLowerCase s = map lowerChar s"

section \<open>Configuration (\<^verbatim>\<open>src/lib/config.ts\<close>)\<close>

definition getConfigValue :: "Db \<Rightarrow> string \<Rightarrow> string \<Rightarrow> JsonValue option" where
  "getConfigValue db storeId key =
     (case find (\<lambda>c. c_storeId c = storeId \<and> c_key c = key \<and> c_effectiveFrom c = None)
             (t_config db) of
        None \<Rightarrow> None
      | Some row \<Rightarrow> c_valueJson row)"

definition getNumberConfig :: "Db \<Rightarrow> string \<Rightarrow> string \<Rightarrow> real \<Rightarrow> real" where
  "getNumberConfig db storeId key fallback =
     (case getConfigValue db storeId key of Some (JNumber v) \<Rightarrow> v | _ \<Rightarrow> fallback)"

definition getBooleanConfig :: "Db \<Rightarrow> string \<Rightarrow> string \<Rightarrow> bool \<Rightarrow> bool" where
  "getBooleanConfig db storeId key fallback =
     (case getConfigValue db storeId key of Some (JBoolean v) \<Rightarrow> v | _ \<Rightarrow> fallback)"

definition getStringConfig :: "Db \<Rightarrow> string \<Rightarrow> string \<Rightarrow> string \<Rightarrow> string" where
  "getStringConfig db storeId key fallback =
     (case getConfigValue db storeId key of Some (JString v) \<Rightarrow> v | _ \<Rightarrow> fallback)"


section \<open>The availability calculator (\<^verbatim>\<open>src/lib/quota.ts\<close>)\<close>

record Requester =
  r_userId :: string
  r_role :: Role

text \<open>
  An entry of \<^verbatim>\<open>offUsers\<close>. \<open>ou_user\<close> holds \<^verbatim>\<open>displayName\<close> and \<^verbatim>\<open>role\<close> of the
  joined user row; the foreign key of the leave request guarantees that the row exists.
\<close>

record OffUser =
  ou_userId :: string
  ou_user :: "(string \<times> Role) option"
  ou_status :: LeaveRequestStatus

record AvailabilityDay =
  date :: string
  remainingQuota :: real
  assistantSupply :: real
  rookieSupply :: real
  designerDemand :: real
  safetyFactor :: real
  selectable :: bool
  reasons :: "string list"
  myLeaveStatus :: "LeaveRequestStatus option"
  myLeaveCancelable :: bool
  offUsers :: "OffUser list"

record MonthAvailability =
  month :: string
  days :: "AvailabilityDay list"

definition isOffStatus :: "LeaveRequestStatus \<Rightarrow> bool" where
  "isOffStatus status = (status = PENDING \<or> status = APPROVED)"

subsection \<open>The values read before the loop over the days\<close>

text \<open>
  Each local constant of \<^verbatim>\<open>getMonthAvailability\<close> is a definition of its own, a function
  of what the source computes it from. The configured numbers \<^verbatim>\<open>safetyFactor\<close> and
  \<^verbatim>\<open>assistantSupply\<close> carry the prefix \<open>cfg\<close>, since the fields of a day record bear
  those names.
\<close>

definition cfgSafetyFactor :: "Db \<Rightarrow> string \<Rightarrow> real" where
  "cfgSafetyFactor db storeId = getNumberConfig db storeId ''safety_factor'' 1.1"

definition cfgAssistantSupply :: "Db \<Rightarrow> string \<Rightarrow> real" where
  "cfgAssistantSupply db storeId = getNumberConfig db storeId ''assistant_supply'' 1.0"

definition rookieSupportSupply :: "Db \<Rightarrow> string \<Rightarrow> real" where
  "rookieSupportSupply db storeId = getNumberConfig db storeId ''rookie_support_supply'' 0.7"

definition rookieGuestSupply :: "Db \<Rightarrow> string \<Rightarrow> real" where
  "rookieGuestSupply db storeId = getNumberConfig db storeId ''rookie_guest_supply'' 0"

definition designerDefaultDemand :: "Db \<Rightarrow> string \<Rightarrow> real" where
  "designerDefaultDemand db storeId = getNumberConfig db storeId ''designer_default_demand'' 1.0"

definition closedDates :: "Db \<Rightarrow> string \<Rightarrow> string list" where
  "closedDates db storeId =
     filter isIsoDate
       (map trim (splitOn (CHR '','') (getStringConfig db storeId ''closed_dates'' [])))"

definition closedWeekdays :: "Db \<Rightarrow> string \<Rightarrow> string list" where
  "closedWeekdays db storeId =
     filter (\<lambda>s. s \<in> set [''SUN'', ''MON'', ''TUE'', ''WED'', ''THU'', ''FRI'', ''SAT''])
       (map (\<lambda>s. toUpperCase (trim s))
          (splitOn (CHR '','') (getStringConfig db storeId ''closed_weekdays'' [])))"

definition phase1Start :: "Db \<Rightarrow> string \<Rightarrow> real" where
  "phase1Start db storeId = getNumberConfig db storeId ''phase1_start_day'' 1"

definition phase1End :: "Db \<Rightarrow> string \<Rightarrow> real" where
  "phase1End db storeId = getNumberConfig db storeId ''phase1_end_day'' 5"

definition phase2Start :: "Db \<Rightarrow> string \<Rightarrow> real" where
  "phase2Start db storeId = getNumberConfig db storeId ''phase2_start_day'' 6"

definition phase2End :: "Db \<Rightarrow> string \<Rightarrow> real" where
  "phase2End db storeId = getNumberConfig db storeId ''phase2_end_day'' 31"

definition assistantBlockSaturday :: "Db \<Rightarrow> string \<Rightarrow> bool" where
  "assistantBlockSaturday db storeId =
     getBooleanConfig db storeId ''assistant_block_saturday'' True"

definition assistantBlockIfMasterWorking :: "Db \<Rightarrow> string \<Rightarrow> bool" where
  "assistantBlockIfMasterWorking db storeId =
     getBooleanConfig db storeId ''assistant_block_if_master_working'' True"

definition rookieAnyBookingSupplyZero :: "Db \<Rightarrow> string \<Rightarrow> bool" where
  "rookieAnyBookingSupplyZero db storeId =
     getBooleanConfig db storeId ''rookie_any_booking_supply_zero'' True"

text \<open>\<^verbatim>\<open>prisma.user.findMany({ where: { storeId, active: true } })\<close>\<close>

definition activeUsers :: "Db \<Rightarrow> string \<Rightarrow> User list" where
  "activeUsers db storeId = [u \<leftarrow> t_user db. u_storeId u = storeId \<and> u_active u]"

definition assistants :: "Db \<Rightarrow> string \<Rightarrow> User list" where
  "assistants db storeId = [u \<leftarrow> activeUsers db storeId. u_role u = ASSISTANT]"

definition rookies :: "Db \<Rightarrow> string \<Rightarrow> User list" where
  "rookies db storeId = [u \<leftarrow> activeUsers db storeId. u_role u = ROOKIE]"

definition designers :: "Db \<Rightarrow> string \<Rightarrow> User list" where
  "designers db storeId = [u \<leftarrow> activeUsers db storeId. u_role u = DESIGNER]"

text \<open>The leave requests of the store in the month with status PENDING or APPROVED.\<close>

definition leaveRequestsOfMonth :: "Db \<Rightarrow> string \<Rightarrow> string \<Rightarrow> LeaveRequest list" where
  "leaveRequestsOfMonth db storeId mon =
     [lr \<leftarrow> t_leaveRequest db.
        lr_storeId lr = storeId \<and> startsWith (mon @ ''-'') (lr_date lr) \<and>
        (lr_status lr = PENDING \<or> lr_status lr = APPROVED)]"

text \<open>The key \<^verbatim>\<open>`${userId}:${date}`\<close> of the sets and maps indexed by user and date.\<close>

definition userDateKey :: "string \<Rightarrow> string \<Rightarrow> string" where
  "userDateKey userId d = userId @ '':'' @ d"

definition offByUserDate :: "Db \<Rightarrow> string \<Rightarrow> string \<Rightarrow> string list" where
  "offByUserDate db storeId mon =
     map (\<lambda>lr. userDateKey (lr_userId lr) (lr_date lr))
       [lr \<leftarrow> leaveRequestsOfMonth db storeId mon. isOffStatus (lr_status lr)]"

text \<open>A later request of the requester for the same date replaces an earlier entry.\<close>

definition myLeaveByDate ::
  "Db \<Rightarrow> string \<Rightarrow> string \<Rightarrow> Requester \<Rightarrow> string \<Rightarrow> (LeaveRequestStatus \<times> bool) option" where
  "myLeaveByDate db storeId mon requester =
     map_of (rev
       (map (\<lambda>lr.
               let status = (if lr_status lr = APPROVED then APPROVED else PENDING)
               in (lr_date lr,
                   (status,
                    status = PENDING \<and> lr_createdByUserId lr = Some (r_userId requester))))
          [lr \<leftarrow> leaveRequestsOfMonth db storeId mon.
             lr_userId lr = r_userId requester \<and> isOffStatus (lr_status lr)]))"

definition joinUser :: "Db \<Rightarrow> string \<Rightarrow> (string \<times> Role) option" where
  "joinUser db userId =
     map_option (\<lambda>u. (u_displayName u, u_role u)) (find (\<lambda>u. u_id u = userId) (t_user db))"

definition pushOffUser :: "Db \<Rightarrow> OffUser list \<Rightarrow> LeaveRequest \<Rightarrow> OffUser list" where
  "pushOffUser db list lr =
     (if \<not> isOffStatus (lr_status lr) then list
      else if list_ex (\<lambda>x. ou_userId x = lr_userId lr) list then list
      else list @
        [\<lparr>ou_userId = lr_userId lr, ou_user = joinUser db (lr_userId lr),
          ou_status = (if lr_status lr = APPROVED then APPROVED else PENDING)\<rparr>])"

text \<open>
  The entry of the map \<^verbatim>\<open>offUsersByDate\<close> at a date (the empty list when there is none):
  the source appends to the list of each request's date in one pass over the requests.
\<close>

definition offUsersByDate :: "Db \<Rightarrow> string \<Rightarrow> string \<Rightarrow> string \<Rightarrow> OffUser list" where
  "offUsersByDate db storeId mon d =
     foldl (pushOffUser db) [] [lr \<leftarrow> leaveRequestsOfMonth db storeId mon. lr_date lr = d]"

definition demandOverrideByDesignerDate :: "Db \<Rightarrow> string \<Rightarrow> string \<Rightarrow> string \<Rightarrow> real option" where
  "demandOverrideByDesignerDate db storeId mon =
     map_of (rev
       (map (\<lambda>ov. (userDateKey (o_designerId ov) (o_date ov), o_demand ov))
          [ov \<leftarrow> t_designerDemandOverride db.
             o_storeId ov = storeId \<and> startsWith (mon @ ''-'') (o_date ov)]))"

definition bookingByRookieDate :: "Db \<Rightarrow> string \<Rightarrow> string \<Rightarrow> string list" where
  "bookingByRookieDate db storeId mon =
     map (\<lambda>b. userDateKey (rb_rookieId b) (rb_date b))
       [b \<leftarrow> t_rookieBooking db. rb_storeId b = storeId \<and> startsWith (mon @ ''-'') (rb_date b)]"

definition bindingsForAssistant :: "Db \<Rightarrow> string \<Rightarrow> Requester \<Rightarrow> Binding list" where
  "bindingsForAssistant db storeId requester =
     (if r_role requester = ASSISTANT \<and> assistantBlockIfMasterWorking db storeId
      then [b \<leftarrow> t_binding db.
              b_storeId b = storeId \<and> b_assistantId b = r_userId requester \<and> b_active b]
      else [])"

definition todayDay :: "Env \<Rightarrow> string \<Rightarrow> real" where
  "todayDay env storeTimeZone = dayOfMonthInTimeZone env storeTimeZone"

definition inDesignerWindow :: "Env \<Rightarrow> Db \<Rightarrow> string \<Rightarrow> string \<Rightarrow> bool" where
  "inDesignerWindow env db storeId storeTimeZone =
     (todayDay env storeTimeZone \<ge> phase1Start db storeId \<and>
      todayDay env storeTimeZone \<le> phase1End db storeId)"

definition inAssistantWindow :: "Env \<Rightarrow> Db \<Rightarrow> string \<Rightarrow> string \<Rightarrow> bool" where
  "inAssistantWindow env db storeId storeTimeZone =
     (todayDay env storeTimeZone \<ge> phase2Start db storeId \<and>
      todayDay env storeTimeZone \<le> phase2End db storeId)"

subsection \<open>The body of the loop\<close>

definition isOff :: "Db \<Rightarrow> string \<Rightarrow> string \<Rightarrow> string \<Rightarrow> string \<Rightarrow> bool" where
  "isOff db storeId mon d userId = (userDateKey userId d \<in> set (offByUserDate db storeId mon))"

text \<open>
  What a user who is not off adds to the running sum of a \<^verbatim>\<open>reduce\<close>: the
  \<^verbatim>\<open>weight\<close> of an assistant, \<^verbatim>\<open>rookieGuestSupply\<close> or \<^verbatim>\<open>supportWeight\<close> of a
  rookie, \<^verbatim>\<open>override ?? base\<close> of a designer.
\<close>

definition assistantWeight :: "Db \<Rightarrow> string \<Rightarrow> User \<Rightarrow> real" where
  "assistantWeight db storeId u =
     (case u_baseSupply u of Some w \<Rightarrow> w | None \<Rightarrow> cfgAssistantSupply db storeId)"

definition rookieWeight :: "Db \<Rightarrow> string \<Rightarrow> string \<Rightarrow> string \<Rightarrow> User \<Rightarrow> real" where
  "rookieWeight db storeId mon d u =
     (let hasBooking = (userDateKey (u_id u) d \<in> set (bookingByRookieDate db storeId mon));
          supportWeight = (case u_baseSupply u of Some w \<Rightarrow> w
                           | None \<Rightarrow> rookieSupportSupply db storeId)
      in if hasBooking \<and> rookieAnyBookingSupplyZero db storeId
         then rookieGuestSupply db storeId
         else supportWeight)"

definition designerWeight :: "Db \<Rightarrow> string \<Rightarrow> string \<Rightarrow> string \<Rightarrow> User \<Rightarrow> real" where
  "designerWeight db storeId mon d u =
     (let override = demandOverrideByDesignerDate db storeId mon (userDateKey (u_id u) d);
          base = (case u_baseDemand u of Some w \<Rightarrow> w
                  | None \<Rightarrow> designerDefaultDemand db storeId)
      in case override of Some v \<Rightarrow> v | None \<Rightarrow> base)"

definition assistantSupplySum :: "Db \<Rightarrow> string \<Rightarrow> string \<Rightarrow> string \<Rightarrow> real" where
  "assistantSupplySum db storeId mon d =
     foldl (\<lambda>acc u. if isOff db storeId mon d (u_id u) then acc
                     else acc + assistantWeight db storeId u)
       0 (assistants db storeId)"

definition rookieSupplySum :: "Db \<Rightarrow> string \<Rightarrow> string \<Rightarrow> string \<Rightarrow> real" where
  "rookieSupplySum db storeId mon d =
     foldl (\<lambda>acc u. if isOff db storeId mon d (u_id u) then acc
                     else acc + rookieWeight db storeId mon d u)
       0 (rookies db storeId)"

definition designerDemandSum :: "Db \<Rightarrow> string \<Rightarrow> string \<Rightarrow> string \<Rightarrow> real" where
  "designerDemandSum db storeId mon d =
     foldl (\<lambda>acc u. if isOff db storeId mon d (u_id u) then acc
                     else acc + designerWeight db storeId mon d u)
       0 (designers db storeId)"

text \<open>
  The pair of \<^verbatim>\<open>selectable\<close> and \<^verbatim>\<open>reasons\<close> that the body updates: \<open>block\<close> is
  \<^verbatim>\<open>selectable = false; reasons.push(r)\<close>, \<open>advise\<close> is \<^verbatim>\<open>reasons.push(r)\<close> alone.
\<close>

definition block :: "string \<Rightarrow> bool \<times> string list \<Rightarrow> bool \<times> string list" where
  "block r st = (False, snd st @ [r])"

definition advise :: "string \<Rightarrow> bool \<times> string list \<Rightarrow> bool \<times> string list" where
  "advise r st = (fst st, snd st @ [r])"

definition isStoreClosed :: "Env \<Rightarrow> Db \<Rightarrow> string \<Rightarrow> string \<Rightarrow> string \<Rightarrow> bool" where
  "isStoreClosed env db storeId storeTimeZone d =
     (let weekdayName = weekdayInTimeZone env storeTimeZone d;
          weekdayCode = toUpperCase (take 3 weekdayName)
      in d \<in> set (closedDates db storeId) \<or> weekdayCode \<in> set (closedWeekdays db storeId))"

definition anyMasterWorking :: "Db \<Rightarrow> string \<Rightarrow> string \<Rightarrow> Requester \<Rightarrow> string \<Rightarrow> bool" where
  "anyMasterWorking db storeId mon requester d =
     list_ex (\<lambda>b. userDateKey (b_designerId b) d \<notin> set (offByUserDate db storeId mon))
       (bindingsForAssistant db storeId requester)"

definition verdict ::
  "Env \<Rightarrow> Db \<Rightarrow> string \<Rightarrow> string \<Rightarrow> string \<Rightarrow> Requester \<Rightarrow> string \<Rightarrow> real \<Rightarrow> bool \<times> string list" where
  "verdict env db storeId storeTimeZone mon requester d quota =
     (let st = (True, []);
          st = (if r_role requester = DESIGNER
                then (if \<not> inDesignerWindow env db storeId storeTimeZone \<and>
                         \<not> inAssistantWindow env db storeId storeTimeZone
                      then block ''PHASE_LOCK'' st else st)
                else st);
          st = (if r_role requester = ASSISTANT \<or> r_role requester = ROOKIE
                then (if \<not> inAssistantWindow env db storeId storeTimeZone
                      then block ''PHASE_LOCK'' st else st)
                else st);
          st = (if isStoreClosed env db storeId storeTimeZone d
                then block ''STORE_CLOSED'' st else st);
          st = (if quota < 0
                then (if r_role requester = DESIGNER
                      then advise ''QUOTA_FULL'' st else block ''QUOTA_FULL'' st)
                else st);
          st = (if r_role requester = ASSISTANT \<and> assistantBlockSaturday db storeId
                then (if startsWith ''sat'' (toLowerCase (weekdayInTimeZone env storeTimeZone d))
                      then block ''SATURDAY_BLOCK'' st else st)
                else st);
          st = (if r_role requester = ASSISTANT \<and> assistantBlockIfMasterWorking db storeId \<and>
                   length (bindingsForAssistant db storeId requester) > 0
                then (if anyMasterWorking db storeId mon requester d
                      then block ''MASTER_WORKING_BLOCK'' st else st)
                else st)
      in st)"

definition availabilityDay ::
  "Env \<Rightarrow> Db \<Rightarrow> string \<Rightarrow> string \<Rightarrow> string \<Rightarrow> Requester \<Rightarrow> nat \<Rightarrow> AvailabilityDay" where
  "availabilityDay env db storeId storeTimeZone mon requester d =
     (let dt = dateFromMonthDay mon d;
          quota = assistantSupplySum db storeId mon dt + rookieSupplySum db storeId mon dt
                    - designerDemandSum db storeId mon dt * cfgSafetyFactor db storeId;
          st = verdict env db storeId storeTimeZone mon requester dt quota;
          mine = myLeaveByDate db storeId mon requester dt
      in \<lparr>date = dt,
          remainingQuota = quota,
          assistantSupply = assistantSupplySum db storeId mon dt,
          rookieSupply = rookieSupplySum db storeId mon dt,
          designerDemand = designerDemandSum db storeId mon dt,
          safetyFactor = cfgSafetyFactor db storeId,
          selectable = fst st,
          reasons = snd st,
          myLeaveStatus = map_option fst mine,
          myLeaveCancelable = (case mine of Some m \<Rightarrow> snd m | None \<Rightarrow> False),
          offUsers = offUsersByDate db storeId mon dt\<rparr>)"

text \<open>\<^verbatim>\<open>for (let d = 1; d <= dim; d += 1)\<close>\<close>

definition getMonthAvailability ::
  "Env \<Rightarrow> Db \<Rightarrow> string \<Rightarrow> string \<Rightarrow> string \<Rightarrow> Requester \<Rightarrow> MonthAvailability" where
  "getMonthAvailability env db storeId storeTimeZone mon requester =
     \<lparr>month = mon,
      days = map (availabilityDay env db storeId storeTimeZone mon requester)
               [1..<Suc (daysInMonth mon)]\<rparr>"


section \<open>The leave request handlers\<close>

text \<open>
  The handlers that write leave requests: the leave route (\<^verbatim>\<open>POST\<close> and
  \<^verbatim>\<open>DELETE\<close>), the approval route, and the server actions of the admin page. A
  handler takes the database and returns it updated, next to its response. The error
  responses are the constructors of \<open>Error\<close>; \<open>UNIQUE_CONSTRAINT\<close> is the exception
  that the database throws when an insert breaks the unique index on
  \<^verbatim>\<open>("userId", "date")\<close> of the table \<^verbatim>\<open>LeaveRequest\<close>.
\<close>

datatype Error =
    UNAUTHORIZED
  | INVALID_DATE
  | ALREADY_REQUESTED LeaveRequestStatus
  | STORE_NOT_FOUND
  | DATE_OUT_OF_RANGE
  | NOT_ALLOWED "string list"
  | NOT_FOUND
  | FORBIDDEN
  | NOT_CANCELABLE
  | INVALID_BODY
  | NOT_PENDING
  | UNIQUE_CONSTRAINT

text \<open>The HTTP status of an error response; an uncaught exception answers 500.\<close>

fun httpStatus :: "Error \<Rightarrow> nat" where
  "httpStatus UNAUTHORIZED = 401"
| "httpStatus INVALID_DATE = 400"
| "httpStatus (ALREADY_REQUESTED s) = 409"
| "httpStatus STORE_NOT_FOUND = 404"
| "httpStatus DATE_OUT_OF_RANGE = 400"
| "httpStatus (NOT_ALLOWED rs) = 403"
| "httpStatus NOT_FOUND = 404"
| "httpStatus FORBIDDEN = 403"
| "httpStatus NOT_CANCELABLE = 409"
| "httpStatus INVALID_BODY = 400"
| "httpStatus NOT_PENDING = 409"
| "httpStatus UNIQUE_CONSTRAINT = 500"

text \<open>
  \<^verbatim>\<open>getCurrentUser\<close> (\<^verbatim>\<open>src/lib/auth.ts\<close>): \<open>mockUserId\<close> is the value of the header
  \<^verbatim>\<open>x-mock-user-id\<close>, else of the cookie \<^verbatim>\<open>mock_user_id\<close>.
\<close>

definition getCurrentUser :: "Db \<Rightarrow> string option \<Rightarrow> User option" where
  "getCurrentUser db mockUserId =
     (case mockUserId of
        None \<Rightarrow> None
      | Some userId \<Rightarrow>
          if userId = [] then None
          else find (\<lambda>u. u_id u = userId \<and> u_active u) (t_user db))"

subsection \<open>Writes to the table of leave requests\<close>

text \<open>
  \<^verbatim>\<open>leaveRequest.update({ where: { id }, data })\<close>. Every call in the source passes an id
  that the same handler has just read, so the row exists.
\<close>

definition leaveRequest_update :: "nat \<Rightarrow> (LeaveRequest \<Rightarrow> LeaveRequest) \<Rightarrow> Db \<Rightarrow> Db" where
  "leaveRequest_update i f db =
     db\<lparr>t_leaveRequest := map (\<lambda>r. if lr_id r = i then f r else r) (t_leaveRequest db)\<rparr>"

definition leaveRequest_updateMany ::
  "(LeaveRequest \<Rightarrow> bool) \<Rightarrow> (LeaveRequest \<Rightarrow> LeaveRequest) \<Rightarrow> Db \<Rightarrow> Db" where
  "leaveRequest_updateMany P f db =
     db\<lparr>t_leaveRequest := map (\<lambda>r. if P r then f r else r) (t_leaveRequest db)\<rparr>"

text \<open>
  \<^verbatim>\<open>leaveRequest.create({ data })\<close>: the new row gets a fresh id; the insert fails when a
  row with the same user and date exists (the unique index).
\<close>

definition leaveRequest_create ::
  "string \<Rightarrow> string \<Rightarrow> string \<Rightarrow> LeaveRequestStatus \<Rightarrow> LeaveRequestSource \<Rightarrow> string option \<Rightarrow>
   nat option \<Rightarrow> Db \<Rightarrow> Error + LeaveRequest \<times> Db" where
  "leaveRequest_create storeId userId d status source createdByUserId linkedToId db =
     (if list_ex (\<lambda>r. lr_userId r = userId \<and> lr_date r = d) (t_leaveRequest db)
      then Inl UNIQUE_CONSTRAINT
      else let row = \<lparr>lr_id = nextId db, lr_storeId = storeId, lr_userId = userId, lr_date = d,
                       lr_status = status, lr_source = source,
                       lr_createdByUserId = createdByUserId, lr_linkedToId = linkedToId\<rparr>
           in Inr (row, db\<lparr>t_leaveRequest := t_leaveRequest db @ [row],
                           nextId := Suc (nextId db)\<rparr>))"

definition approval_create ::
  "string \<Rightarrow> nat \<Rightarrow> string \<Rightarrow> ApprovalAction \<Rightarrow> string option \<Rightarrow> Db \<Rightarrow> Db" where
  "approval_create storeId leaveRequestId managerId action reason db =
     db\<lparr>t_approval := t_approval db @
          [\<lparr>a_storeId = storeId, a_leaveRequestId = leaveRequestId, a_managerId = managerId,
            a_action = action, a_reason = reason\<rparr>]\<rparr>"

subsection \<open>The leave route: \<^verbatim>\<open>POST\<close>\<close>

text \<open>
  The write of the requester's own record: a CANCELED or REJECTED record of the same user
  and date is set back to PENDING in place, otherwise a record is created.
\<close>

definition POST_write ::
  "User \<Rightarrow> Store \<Rightarrow> string \<Rightarrow> LeaveRequest option \<Rightarrow> Db \<Rightarrow> Error + LeaveRequest \<times> Db" where
  "POST_write user store d existingAny db =
     (case existingAny of
        Some e \<Rightarrow>
          if lr_status e = CANCELED \<or> lr_status e = REJECTED
          then Inr (e\<lparr>lr_status := PENDING, lr_source := SELF,
                       lr_createdByUserId := Some (u_id user)\<rparr>,
                    leaveRequest_update (lr_id e)
                      (\<lambda>r. r\<lparr>lr_status := PENDING, lr_source := SELF,
                             lr_createdByUserId := Some (u_id user)\<rparr>) db)
          else leaveRequest_create (s_id store) (u_id user) d PENDING SELF (Some (u_id user)) None db
      | None \<Rightarrow>
          leaveRequest_create (s_id store) (u_id user) d PENDING SELF (Some (u_id user)) None db)"

text \<open>One turn of the loop over the designer's bindings.\<close>

definition mirrorBinding ::
  "User \<Rightarrow> Store \<Rightarrow> string \<Rightarrow> LeaveRequest \<Rightarrow> Binding \<Rightarrow> Db \<Rightarrow> Error + Db" where
  "mirrorBinding user store d leaveRequest b db =
     (let assistantExisting =
            find (\<lambda>r. lr_userId r = b_assistantId b \<and> lr_date r = d) (t_leaveRequest db)
      in case assistantExisting of
           Some e \<Rightarrow>
             if lr_status e = PENDING \<or> lr_status e = APPROVED then Inr db
             else if lr_status e = CANCELED \<or> lr_status e = REJECTED
             then Inr (leaveRequest_update (lr_id e)
                         (\<lambda>r. r\<lparr>lr_status := PENDING, lr_source := BINDING_MIRROR,
                                lr_createdByUserId := Some (u_id user),
                                lr_linkedToId := Some (lr_id leaveRequest)\<rparr>) db)
             else map_sum id snd
                    (leaveRequest_create (s_id store) (b_assistantId b) d PENDING BINDING_MIRROR
                       (Some (u_id user)) (Some (lr_id leaveRequest)) db)
         | None \<Rightarrow>
             map_sum id snd
               (leaveRequest_create (s_id store) (b_assistantId b) d PENDING BINDING_MIRROR
                  (Some (u_id user)) (Some (lr_id leaveRequest)) db))"

text \<open>
  The loop; the route runs in no transaction, so an exception leaves the writes made so
  far in place.
\<close>

fun mirrorLoop ::
  "User \<Rightarrow> Store \<Rightarrow> string \<Rightarrow> LeaveRequest \<Rightarrow> Binding list \<Rightarrow> Db \<Rightarrow> Error option \<times> Db" where
  "mirrorLoop user store d leaveRequest [] db = (None, db)"
| "mirrorLoop user store d leaveRequest (b # bs) db =
     (case mirrorBinding user store d leaveRequest b db of
        Inl err \<Rightarrow> (Some err, db)
      | Inr db' \<Rightarrow> mirrorLoop user store d leaveRequest bs db')"

definition POST_mirrors :: "User \<Rightarrow> Store \<Rightarrow> string \<Rightarrow> LeaveRequest \<Rightarrow> Db \<Rightarrow> Error option \<times> Db" where
  "POST_mirrors user store d leaveRequest db =
     (if u_role user = DESIGNER
      then (let mirrorPolicy = getStringConfig db (s_id store) ''binding_mirror_leave'' ''auto_create''
            in if mirrorPolicy = ''auto_create''
               then mirrorLoop user store d leaveRequest
                      [b \<leftarrow> t_binding db.
                         b_storeId b = s_id store \<and> b_designerId b = u_id user \<and> b_active b] db
               else (None, db))
      else (None, db))"

text \<open>
  \<open>body\<close> is the member \<^verbatim>\<open>date\<close> of the request body when the body parses and the
  member is a string.
\<close>

definition POST_leave ::
  "Env \<Rightarrow> Db \<Rightarrow> string option \<Rightarrow> string option \<Rightarrow> (Error + LeaveRequest) \<times> Db" where
  "POST_leave env db mockUserId body =
     (case getCurrentUser db mockUserId of
        None \<Rightarrow> (Inl UNAUTHORIZED, db)
      | Some user \<Rightarrow>
     (case body of
        None \<Rightarrow> (Inl INVALID_DATE, db)
      | Some d \<Rightarrow>
     if length d < 1 \<or> \<not> isIsoDate d then (Inl INVALID_DATE, db)
     else
     let mon = take 7 d;
         existingAny = find (\<lambda>r. lr_userId r = u_id user \<and> lr_date r = d) (t_leaveRequest db)
     in
     (case (case existingAny of
              Some e \<Rightarrow> if lr_status e = PENDING \<or> lr_status e = APPROVED
                        then Some (lr_status e) else None
            | None \<Rightarrow> None) of
        Some status \<Rightarrow> (Inl (ALREADY_REQUESTED status), db)
      | None \<Rightarrow>
     (case find (\<lambda>s. s_id s = u_storeId user) (t_store db) of
        None \<Rightarrow> (Inl STORE_NOT_FOUND, db)
      | Some store \<Rightarrow>
     let availability = getMonthAvailability env db (s_id store) (s_timezone store) mon
                          \<lparr>r_userId = u_id user, r_role = u_role user\<rparr>
     in
     (case find (\<lambda>day. date day = d) (days availability) of
        None \<Rightarrow> (Inl DATE_OUT_OF_RANGE, db)
      | Some day \<Rightarrow>
     if \<not> selectable day then (Inl (NOT_ALLOWED (reasons day)), db)
     else
     (case POST_write user store d existingAny db of
        Inl err \<Rightarrow> (Inl err, db)
      | Inr (leaveRequest, db1) \<Rightarrow>
     (case POST_mirrors user store d leaveRequest db1 of
        (Some err, db2) \<Rightarrow> (Inl err, db2)
      | (None, db2) \<Rightarrow> (Inr leaveRequest, db2))))))))"

subsection \<open>The leave route: \<^verbatim>\<open>DELETE\<close>\<close>

definition DELETE_leave ::
  "Db \<Rightarrow> string option \<Rightarrow> string option \<Rightarrow> (Error + unit) \<times> Db" where
  "DELETE_leave db mockUserId body =
     (case getCurrentUser db mockUserId of
        None \<Rightarrow> (Inl UNAUTHORIZED, db)
      | Some user \<Rightarrow>
     (case body of
        None \<Rightarrow> (Inl INVALID_DATE, db)
      | Some d \<Rightarrow>
     if length d < 1 \<or> \<not> isIsoDate d then (Inl INVALID_DATE, db)
     else
     (case find (\<lambda>r. lr_storeId r = u_storeId user \<and> lr_userId r = u_id user \<and> lr_date r = d \<and>
                      (lr_status r = PENDING \<or> lr_status r = APPROVED)) (t_leaveRequest db) of
        None \<Rightarrow> (Inl NOT_FOUND, db)
      | Some existing \<Rightarrow>
     if lr_createdByUserId existing \<noteq> Some (u_id user) then (Inl FORBIDDEN, db)
     else if lr_status existing \<noteq> PENDING then (Inl NOT_CANCELABLE, db)
     else
     let db1 = leaveRequest_update (lr_id existing) (\<lambda>r. r\<lparr>lr_status := CANCELED\<rparr>) db;
         db2 = leaveRequest_updateMany
                 (\<lambda>r. lr_storeId r = u_storeId user \<and> lr_linkedToId r = Some (lr_id existing) \<and>
                       lr_status r = PENDING \<and> lr_createdByUserId r = Some (u_id user))
                 (\<lambda>r. r\<lparr>lr_status := CANCELED\<rparr>) db1
     in (Inr (), db2))))"

subsection \<open>Approval: the approval route and the server action \<^verbatim>\<open>setLeaveStatus\<close>\<close>

definition nextStatus :: "ApprovalAction \<Rightarrow> LeaveRequestStatus" where
  "nextStatus action = (if action = REJECT then REJECTED else APPROVED)"

text \<open>
  The transaction of both handlers: the status of the request, the approval record, then
  the requests linked to it (\<^verbatim>\<open>linkedFrom\<close>, read after the update) that are PENDING.
\<close>

definition approvalTransaction ::
  "User \<Rightarrow> nat \<Rightarrow> ApprovalAction \<Rightarrow> string option \<Rightarrow> Db \<Rightarrow> Db" where
  "approvalTransaction user i action reason db =
     (let db1 = leaveRequest_update i (\<lambda>r. r\<lparr>lr_status := nextStatus action\<rparr>) db;
          linkedFrom = [r \<leftarrow> t_leaveRequest db1. lr_linkedToId r = Some i];
          db2 = approval_create (u_storeId user) i (u_id user) action reason db1
      in if length linkedFrom > 0
         then (let mirrorIds = map lr_id linkedFrom
               in leaveRequest_updateMany (\<lambda>r. lr_id r \<in> set mirrorIds \<and> lr_status r = PENDING)
                    (\<lambda>r. r\<lparr>lr_status := nextStatus action\<rparr>) db2)
         else db2)"

text \<open>
  The approval route. \<open>body\<close> is the parsed request body: the action and the optional
  reason, \<open>None\<close> when the body does not match the schema.
\<close>

definition POST_approval ::
  "Db \<Rightarrow> string option \<Rightarrow> nat \<Rightarrow> (ApprovalAction \<times> string option) option \<Rightarrow>
   (Error + LeaveRequest) \<times> Db" where
  "POST_approval db mockUserId i body =
     (case getCurrentUser db mockUserId of
        None \<Rightarrow> (Inl UNAUTHORIZED, db)
      | Some user \<Rightarrow>
     if u_role user \<noteq> MANAGER then (Inl FORBIDDEN, db)
     else
     (case body of
        None \<Rightarrow> (Inl INVALID_BODY, db)
      | Some (action, reason) \<Rightarrow>
     (case find (\<lambda>r. lr_id r = i \<and> lr_storeId r = u_storeId user) (t_leaveRequest db) of
        None \<Rightarrow> (Inl NOT_FOUND, db)
      | Some lr \<Rightarrow>
     if lr_status lr \<noteq> PENDING then (Inl NOT_PENDING, db)
     else (Inr (lr\<lparr>lr_status := nextStatus action\<rparr>),
           approvalTransaction user i action reason db))))"

definition parseAction :: "string \<Rightarrow> ApprovalAction option" where
  "parseAction action =
     (if action = ''APPROVE'' then Some APPROVE
      else if action = ''REJECT'' then Some REJECT
      else if action = ''FORCE_APPROVE'' then Some FORCE_APPROVE
      else None)"

text \<open>
  The server action: \<open>idField\<close> and \<open>actionField\<close> are the form fields \<^verbatim>\<open>id\<close> and
  \<^verbatim>\<open>action\<close> (\<open>None\<close> for an id that is missing or empty). It returns nothing.
\<close>

definition setLeaveStatus :: "Db \<Rightarrow> string option \<Rightarrow> nat option \<Rightarrow> string \<Rightarrow> Db" where
  "setLeaveStatus db mockUserId idField actionField =
     (case getCurrentUser db mockUserId of
        None \<Rightarrow> db
      | Some user \<Rightarrow>
     if u_role user \<noteq> MANAGER then db
     else
     (case idField of
        None \<Rightarrow> db
      | Some i \<Rightarrow>
     (case find (\<lambda>r. lr_id r = i \<and> lr_storeId r = u_storeId user) (t_leaveRequest db) of
        None \<Rightarrow> db
      | Some lr \<Rightarrow>
     if lr_status lr \<noteq> PENDING then db
     else
     (case parseAction actionField of
        None \<Rightarrow> db
      | Some action \<Rightarrow> approvalTransaction user i action None db))))"

definition approveLeave :: "Db \<Rightarrow> string option \<Rightarrow> nat option \<Rightarrow> Db" where
  "approveLeave db mockUserId idField = setLeaveStatus db mockUserId idField ''APPROVE''"

definition rejectLeave :: "Db \<Rightarrow> string option \<Rightarrow> nat option \<Rightarrow> Db" where
  "rejectLeave db mockUserId idField = setLeaveStatus db mockUserId idField ''REJECT''"

definition forceApproveLeave :: "Db \<Rightarrow> string option \<Rightarrow> nat option \<Rightarrow> Db" where
  "forceApproveLeave db mockUserId idField =
     setLeaveStatus db mockUserId idField ''FORCE_APPROVE''"

subsection \<open>The manager's own leave entry and the reset\<close>

text \<open>
  \<^verbatim>\<open>createManagerLeave\<close>: the transaction updates the record of the target user and date
  in the manager's store when there is one, else creates it, and adds the approval. An
  exception of the insert rolls the transaction back. The message to the messaging
  provider that follows writes nothing.
\<close>

definition createManagerLeave ::
  "Db \<Rightarrow> string option \<Rightarrow> string \<Rightarrow> string \<Rightarrow> Error option \<times> Db" where
  "createManagerLeave db mockUserId userId d =
     (case getCurrentUser db mockUserId of
        None \<Rightarrow> (None, db)
      | Some me \<Rightarrow>
     if u_role me \<noteq> MANAGER then (None, db)
     else if userId = [] \<or> \<not> isIsoDate d then (None, db)
     else
     (case find (\<lambda>u. u_id u = userId \<and> u_storeId u = u_storeId me \<and> u_active u) (t_user db) of
        None \<Rightarrow> (None, db)
      | Some target \<Rightarrow>
     (case find (\<lambda>r. lr_storeId r = u_storeId me \<and> lr_userId r = u_id target \<and> lr_date r = d)
             (t_leaveRequest db) of
        Some existing \<Rightarrow>
          (None,
           approval_create (u_storeId me) (lr_id existing) (u_id me) FORCE_APPROVE None
             (leaveRequest_update (lr_id existing)
                (\<lambda>r. r\<lparr>lr_status := APPROVED, lr_source := SOURCE_MANAGER,
                       lr_createdByUserId := Some (u_id me)\<rparr>) db))
      | None \<Rightarrow>
          (case leaveRequest_create (u_storeId me) (u_id target) d APPROVED SOURCE_MANAGER
                  (Some (u_id me)) None db of
             Inl err \<Rightarrow> (Some err, db)
           | Inr (created, db1) \<Rightarrow>
               (None,
                approval_create (u_storeId me) (lr_id created) (u_id me) FORCE_APPROVE None
                  db1)))))"

text \<open>
  \<^verbatim>\<open>clearAllLeaves\<close> deletes the approvals and the leave requests of the manager's
  store. The foreign keys act on what remains: an approval of a deleted request is
  deleted (\<^verbatim>\<open>ON DELETE CASCADE\<close>), a link to a deleted request is set to null
  (\<^verbatim>\<open>ON DELETE SET NULL\<close>).
\<close>

definition clearAllLeaves :: "Db \<Rightarrow> string option \<Rightarrow> Db" where
  "clearAllLeaves db mockUserId =
     (case getCurrentUser db mockUserId of
        None \<Rightarrow> db
      | Some me \<Rightarrow>
     if u_role me \<noteq> MANAGER then db
     else
     let gone = map lr_id [r \<leftarrow> t_leaveRequest db. lr_storeId r = u_storeId me]
     in db\<lparr>t_approval :=
              [a \<leftarrow> t_approval db. a_storeId a \<noteq> u_storeId me \<and> a_leaveRequestId a \<notin> set gone],
            t_leaveRequest :=
              map (\<lambda>r. case lr_linkedToId r of
                         Some j \<Rightarrow> if j \<in> set gone then r\<lparr>lr_linkedToId := None\<rparr> else r
                       | None \<Rightarrow> r)
                [r \<leftarrow> t_leaveRequest db. lr_storeId r \<noteq> u_storeId me]\<rparr>)"

subsection \<open>Calls and reachable states\<close>

text \<open>A call of one of the handlers above, with its inputs.\<close>

datatype Call =
    Call_POST_leave Env "string option" "string option"
  | Call_DELETE_leave "string option" "string option"
  | Call_POST_approval "string option" nat "(ApprovalAction \<times> string option) option"
  | Call_setLeaveStatus "string option" "nat option" string
  | Call_createManagerLeave "string option" string string
  | Call_clearAllLeaves "string option"

fun perform :: "Db \<Rightarrow> Call \<Rightarrow> Db" where
  "perform db (Call_POST_leave env mockUserId body) = snd (POST_leave env db mockUserId body)"
| "perform db (Call_DELETE_leave mockUserId body) = snd (DELETE_leave db mockUserId body)"
| "perform db (Call_POST_approval mockUserId i body) = snd (POST_approval db mockUserId i body)"
| "perform db (Call_setLeaveStatus mockUserId idField actionField) =
     setLeaveStatus db mockUserId idField actionField"
| "perform db (Call_createManagerLeave mockUserId userId d) =
     snd (createManagerLeave db mockUserId userId d)"
| "perform db (Call_clearAllLeaves mockUserId) = clearAllLeaves db mockUserId"

text \<open>
  The states of the database that the handlers produce from an empty table of leave
  requests. The last rule stands for the handlers that write the other tables (users,
  bindings, configuration, bookings, demand overrides).
\<close>

inductive reachable :: "Db \<Rightarrow> bool" where
  r_init: "t_leaveRequest db = [] \<Longrightarrow> reachable db"
| r_call: "reachable db \<Longrightarrow> reachable (perform db c)"
| r_other: "reachable db \<Longrightarrow> t_leaveRequest db' = t_leaveRequest db \<Longrightarrow> nextId db' = nextId db \<Longrightarrow>
            reachable db'"

section \<open>Properties of the stored leave requests\<close>

text \<open>The unique index on \<^verbatim>\<open>("userId", "date")\<close>: one record for a user and a date.\<close>

definition uniqueUserDate :: "Db \<Rightarrow> bool" where
  "uniqueUserDate db = distinct (map (\<lambda>r. (lr_userId r, lr_date r)) (t_leaveRequest db))"

text \<open>The primary key: ids are distinct, and those in use lie below the counter.\<close>

definition uniqueIds :: "Db \<Rightarrow> bool" where
  "uniqueIds db =
     (distinct (map lr_id (t_leaveRequest db)) \<and>
      list_all (\<lambda>r. lr_id r < nextId db) (t_leaveRequest db))"




text \<open>
  The phase windows in the words of the specification: a designer may request from the
  first to the last day of phase 1 or of phase 2, an assistant or a rookie from the first
  to the last day of phase 2, by today's day of the month in the store's time zone. The
  code never locks a manager.
\<close>

definition withinWindow :: "real \<Rightarrow> real \<Rightarrow> real \<Rightarrow> bool" where
  "withinWindow today startDay endDay = (startDay \<le> today \<and> today \<le> endDay)"

definition mayRequest :: "Env \<Rightarrow> Db \<Rightarrow> string \<Rightarrow> string \<Rightarrow> Role \<Rightarrow> bool" where
  "mayRequest env db storeId tz role =
     (let today = dayOfMonthInTimeZone env tz;
          phase1 = withinWindow today (getNumberConfig db storeId ''phase1_start_day'' 1)
                     (getNumberConfig db storeId ''phase1_end_day'' 5);
          phase2 = withinWindow today (getNumberConfig db storeId ''phase2_start_day'' 6)
                     (getNumberConfig db storeId ''phase2_end_day'' 31)
      in case role of
           DESIGNER \<Rightarrow> phase1 \<or> phase2
         | ASSISTANT \<Rightarrow> phase2
         | ROOKIE \<Rightarrow> phase2
         | MANAGER \<Rightarrow> True)"



section \<open>A salon for the examples\<close>

text \<open>
  One store with a manager, two designers, two assistants and two rookies, the default
  configuration, one binding, and four leave requests. The examples below run the model
  on it, on the third and on the tenth day of a month.
\<close>

definition exEnv3 :: Env where
  "exEnv3 = \<lparr>dayOfMonthInTimeZone = (\<lambda>tz. 3), weekdayInTimeZone = (\<lambda>tz d. ''Mon'')\<rparr>"

definition exEnv10 :: Env where
  "exEnv10 = \<lparr>dayOfMonthInTimeZone = (\<lambda>tz. 10), weekdayInTimeZone = (\<lambda>tz d. ''Mon'')\<rparr>"

definition exUser :: "string \<Rightarrow> Role \<Rightarrow> real option \<Rightarrow> User" where
  "exUser i r supply =
     \<lparr>u_id = i, u_storeId = ''s1'', u_displayName = i, u_role = r, u_active = True,
      u_baseDemand = None, u_baseSupply = supply\<rparr>"

definition exLeave ::
  "nat \<Rightarrow> string \<Rightarrow> string \<Rightarrow> LeaveRequestStatus \<Rightarrow> LeaveRequest" where
  "exLeave i userId d status =
     \<lparr>lr_id = i, lr_storeId = ''s1'', lr_userId = userId, lr_date = d, lr_status = status,
      lr_source = SELF, lr_createdByUserId = Some userId, lr_linkedToId = None\<rparr>"

definition exDb :: Db where
  "exDb =
     \<lparr>t_store = [\<lparr>s_id = ''s1'', s_timezone = ''Asia/Taipei''\<rparr>],
      t_user = [exUser ''m1'' MANAGER None, exUser ''d1'' DESIGNER None,
                exUser ''d2'' DESIGNER None, exUser ''a1'' ASSISTANT (Some 1),
                exUser ''a2'' ASSISTANT None, exUser ''r1'' ROOKIE (Some 0.5),
                exUser ''r2'' ROOKIE (Some 0.5)],
      t_config = [],
      t_binding = [\<lparr>b_storeId = ''s1'', b_assistantId = ''a1'', b_designerId = ''d1'',
                    b_active = True\<rparr>],
      t_leaveRequest = [exLeave 0 ''a2'' ''2026-02-05'' PENDING,
                        exLeave 1 ''d2'' ''2026-02-05'' APPROVED,
                        exLeave 2 ''a1'' ''2026-02-06'' PENDING,
                        exLeave 3 ''r1'' ''2026-02-07'' CANCELED],
      t_approval = [],
      t_designerDemandOverride = [],
      t_rookieBooking = [\<lparr>rb_storeId = ''s1'', rb_rookieId = ''r2'', rb_date = ''2026-02-05''\<rparr>],
      nextId = 4\<rparr>"

definition exRequester :: "string \<Rightarrow> Role \<Rightarrow> Requester" where
  "exRequester i r = \<lparr>r_userId = i, r_role = r\<rparr>"

text \<open>
  The example salon after the designer \<open>d1\<close> has asked, on the third, for leave on
  5 February: the request has the id 4, and the bound assistant \<open>a1\<close> has the mirror 5.
\<close>

definition exDbMirror :: Db where
  "exDbMirror = snd (POST_leave exEnv3 exDb (Some ''d1'') (Some ''2026-02-05''))"

section \<open>Active records\<close>

text \<open>
  The user has a record with status PENDING or APPROVED for the date, in any store: what
  the leave route looks for before it writes a record for a user and a date.
\<close>

definition hasActive :: "Db \<Rightarrow> string \<Rightarrow> string \<Rightarrow> bool" where
  "hasActive db userId d =
     list_ex (\<lambda>r. lr_userId r = userId \<and> lr_date r = d \<and>
                  (lr_status r = PENDING \<or> lr_status r = APPROVED))
       (t_leaveRequest db)"

text \<open>
  The mirror of the specification: the record \<open>m\<close> of the assistant for the date is
  PENDING, has the source BINDING_MIRROR, is linked to the designer's request and was
  created by the designer.
\<close>

definition isMirrorOf :: "User \<Rightarrow> LeaveRequest \<Rightarrow> string \<Rightarrow> string \<Rightarrow> LeaveRequest \<Rightarrow> bool" where
  "isMirrorOf user leaveRequest assistantId d m =
     (lr_userId m = assistantId \<and> lr_date m = d \<and> lr_status m = PENDING \<and>
      lr_source m = BINDING_MIRROR \<and> lr_linkedToId m = Some (lr_id leaveRequest) \<and>
      lr_createdByUserId m = Some (u_id user))"

text \<open>The example salon before any leave request was made.\<close>

definition exDbEmpty :: Db where
  "exDbEmpty = exDb\<lparr>t_leaveRequest := [], nextId := 0\<rparr>"


section \<open>The calculator: supporting facts\<close>


lemma day_in_days:
  assumes "day \<in> set (days (getMonthAvailability env db storeId tz mon rq))"
  shows "\<exists>d. 1 \<le> d \<and> d \<le> daysInMonth mon \<and> day = availabilityDay env db storeId tz mon rq d"
  using assms by (auto simp: getMonthAvailability_def)












lemma availabilityDay_fields:
  "date (availabilityDay env db storeId tz mon rq d) = dateFromMonthDay mon d"
  "remainingQuota (availabilityDay env db storeId tz mon rq d) =
     assistantSupplySum db storeId mon (dateFromMonthDay mon d) +
     rookieSupplySum db storeId mon (dateFromMonthDay mon d) -
     designerDemandSum db storeId mon (dateFromMonthDay mon d) * cfgSafetyFactor db storeId"
  "assistantSupply (availabilityDay env db storeId tz mon rq d) =
     assistantSupplySum db storeId mon (dateFromMonthDay mon d)"
  "rookieSupply (availabilityDay env db storeId tz mon rq d) =
     rookieSupplySum db storeId mon (dateFromMonthDay mon d)"
  "designerDemand (availabilityDay env db storeId tz mon rq d) =
     designerDemandSum db storeId mon (dateFromMonthDay mon d)"
  "safetyFactor (availabilityDay env db storeId tz mon rq d) = cfgSafetyFactor db storeId"
  "selectable (availabilityDay env db storeId tz mon rq d) =
     fst (verdict env db storeId tz mon rq (dateFromMonthDay mon d)
            (assistantSupplySum db storeId mon (dateFromMonthDay mon d) +
             rookieSupplySum db storeId mon (dateFromMonthDay mon d) -
             designerDemandSum db storeId mon (dateFromMonthDay mon d) * cfgSafetyFactor db storeId))"
  "reasons (availabilityDay env db storeId tz mon rq d) =
     snd (verdict env db storeId tz mon rq (dateFromMonthDay mon d)
            (assistantSupplySum db storeId mon (dateFromMonthDay mon d) +
             rookieSupplySum db storeId mon (dateFromMonthDay mon d) -
             designerDemandSum db storeId mon (dateFromMonthDay mon d) * cfgSafetyFactor db storeId))"
  by (simp_all add: availabilityDay_def Let_def)

lemma availabilityDay_in_days:
  "1 \<le> d \<Longrightarrow> d \<le> daysInMonth mon \<Longrightarrow>
   availabilityDay env db storeId tz mon rq d
     \<in> set (days (getMonthAvailability env db storeId tz mon rq))"
  by (auto simp del: upt_Suc simp: getMonthAvailability_def)




lemma verdict_quota_full:
  "(''QUOTA_FULL'' \<in> set (snd (verdict env db storeId tz mon rq d q))) = (q < 0)"
  by (simp add: verdict_def Let_def block_def advise_def)

lemma verdict_phase_lock:
  "(''PHASE_LOCK'' \<in> set (snd (verdict env db storeId tz mon rq d q))) =
   ((r_role rq = DESIGNER \<and> \<not> inDesignerWindow env db storeId tz \<and>
       \<not> inAssistantWindow env db storeId tz) \<or>
    ((r_role rq = ASSISTANT \<or> r_role rq = ROOKIE) \<and> \<not> inAssistantWindow env db storeId tz))"
  by (auto simp add: verdict_def Let_def block_def advise_def)

lemma verdict_phase_lock_blocks:
  "''PHASE_LOCK'' \<in> set (snd (verdict env db storeId tz mon rq d q)) \<Longrightarrow>
   \<not> fst (verdict env db storeId tz mon rq d q)"
  by (auto simp add: verdict_def Let_def block_def advise_def split: if_splits)

lemma verdict_designer:
  "r_role rq = DESIGNER \<Longrightarrow>
   fst (verdict env db storeId tz mon rq d q) =
     ((inDesignerWindow env db storeId tz \<or> inAssistantWindow env db storeId tz) \<and>
      \<not> isStoreClosed env db storeId tz d)"
  by (auto simp add: verdict_def Let_def block_def advise_def)

lemma verdict_designer_reasons:
  "r_role rq = DESIGNER \<Longrightarrow>
   fst (verdict env db storeId tz mon rq d q) =
     list_all (\<lambda>r. r = ''QUOTA_FULL'') (snd (verdict env db storeId tz mon rq d q))"
  by (auto simp add: verdict_def Let_def block_def advise_def)

lemma verdict_quota_blocks:
  "r_role rq \<noteq> DESIGNER \<Longrightarrow> q < 0 \<Longrightarrow> \<not> fst (verdict env db storeId tz mon rq d q)"
  by (auto simp add: verdict_def Let_def block_def advise_def)


section \<open>The leave route: supporting facts\<close>

lemma POST_leave_success_ex:
  assumes "POST_leave env db mockUserId body = (Inr lr, db')"
  shows "\<exists>user d store day db1.
    getCurrentUser db mockUserId = Some user \<and> body = Some d \<and> isIsoDate d \<and>
    find (\<lambda>s. s_id s = u_storeId user) (t_store db) = Some store \<and>
    find (\<lambda>day. date day = d)
       (days (getMonthAvailability env db (s_id store) (s_timezone store) (take 7 d)
          \<lparr>r_userId = u_id user, r_role = u_role user\<rparr>)) = Some day \<and>
    selectable day \<and>
    POST_write user store d
       (find (\<lambda>r. lr_userId r = u_id user \<and> lr_date r = d) (t_leaveRequest db)) db = Inr (lr, db1) \<and>
    POST_mirrors user store d lr db1 = (None, db') \<and>
    (\<forall>e. find (\<lambda>r. lr_userId r = u_id user \<and> lr_date r = d) (t_leaveRequest db) = Some e \<longrightarrow>
       lr_status e \<noteq> PENDING \<and> lr_status e \<noteq> APPROVED)"
  using assms unfolding POST_leave_def Let_def
  by (auto split: option.splits if_splits sum.splits prod.splits)

lemma POST_leave_success:
  assumes "POST_leave env db mockUserId body = (Inr lr, db')"
  obtains user d store day db1 where
    "getCurrentUser db mockUserId = Some user" "body = Some d" "isIsoDate d"
    "find (\<lambda>s. s_id s = u_storeId user) (t_store db) = Some store"
    "find (\<lambda>day. date day = d)
       (days (getMonthAvailability env db (s_id store) (s_timezone store) (take 7 d)
          \<lparr>r_userId = u_id user, r_role = u_role user\<rparr>)) = Some day"
    "selectable day"
    "POST_write user store d
       (find (\<lambda>r. lr_userId r = u_id user \<and> lr_date r = d) (t_leaveRequest db)) db = Inr (lr, db1)"
    "POST_mirrors user store d lr db1 = (None, db')"
    "\<And>e. find (\<lambda>r. lr_userId r = u_id user \<and> lr_date r = d) (t_leaveRequest db) = Some e \<Longrightarrow>
       lr_status e \<noteq> PENDING \<and> lr_status e \<noteq> APPROVED"
  using POST_leave_success_ex [OF assms] by blast

lemma mayRequest_windows:
  "mayRequest env db storeId tz role =
     (case role of
        DESIGNER \<Rightarrow> inDesignerWindow env db storeId tz \<or> inAssistantWindow env db storeId tz
      | ASSISTANT \<Rightarrow> inAssistantWindow env db storeId tz
      | ROOKIE \<Rightarrow> inAssistantWindow env db storeId tz
      | MANAGER \<Rightarrow> True)"
  by (cases role)
    (simp_all add: mayRequest_def withinWindow_def Let_def inDesignerWindow_def
      inAssistantWindow_def todayDay_def phase1Start_def phase1End_def phase2Start_def
      phase2End_def)

lemma verdict_phase_lock_mayRequest:
  "(''PHASE_LOCK'' \<in> set (snd (verdict env db storeId tz mon rq d q))) =
   (\<not> mayRequest env db storeId tz (r_role rq))"
  unfolding verdict_phase_lock mayRequest_windows by (cases "r_role rq") auto


section \<open>Writes to the table: supporting facts\<close>

lemma leaveRequest_update_tables:
  "t_leaveRequest (leaveRequest_update i f db) =
     map (\<lambda>r. if lr_id r = i then f r else r) (t_leaveRequest db)"
  "nextId (leaveRequest_update i f db) = nextId db"
  "t_approval (leaveRequest_update i f db) = t_approval db"
  "t_binding (leaveRequest_update i f db) = t_binding db"
  "t_config (leaveRequest_update i f db) = t_config db"
  "t_user (leaveRequest_update i f db) = t_user db"
  "t_store (leaveRequest_update i f db) = t_store db"
  by (simp_all add: leaveRequest_update_def)

lemma leaveRequest_updateMany_tables:
  "t_leaveRequest (leaveRequest_updateMany P f db) =
     map (\<lambda>r. if P r then f r else r) (t_leaveRequest db)"
  "nextId (leaveRequest_updateMany P f db) = nextId db"
  "t_approval (leaveRequest_updateMany P f db) = t_approval db"
  "t_binding (leaveRequest_updateMany P f db) = t_binding db"
  "t_config (leaveRequest_updateMany P f db) = t_config db"
  "t_user (leaveRequest_updateMany P f db) = t_user db"
  "t_store (leaveRequest_updateMany P f db) = t_store db"
  by (simp_all add: leaveRequest_updateMany_def)

lemma approval_create_tables:
  "t_leaveRequest (approval_create s i m a r db) = t_leaveRequest db"
  "nextId (approval_create s i m a r db) = nextId db"
  "t_approval (approval_create s i m a r db) =
     t_approval db @ [\<lparr>a_storeId = s, a_leaveRequestId = i, a_managerId = m, a_action = a,
                        a_reason = r\<rparr>]"
  "t_binding (approval_create s i m a r db) = t_binding db"
  "t_config (approval_create s i m a r db) = t_config db"
  "t_user (approval_create s i m a r db) = t_user db"
  "t_store (approval_create s i m a r db) = t_store db"
  by (simp_all add: approval_create_def)

lemma leaveRequest_create_Inr:
  assumes "leaveRequest_create storeId userId d status source creator link db = Inr (row, db')"
  shows "\<not> list_ex (\<lambda>r. lr_userId r = userId \<and> lr_date r = d) (t_leaveRequest db)"
    and "row = \<lparr>lr_id = nextId db, lr_storeId = storeId, lr_userId = userId, lr_date = d,
                lr_status = status, lr_source = source, lr_createdByUserId = creator,
                lr_linkedToId = link\<rparr>"
    and "t_leaveRequest db' = t_leaveRequest db @ [row]"
    and "nextId db' = Suc (nextId db)"
    and "t_approval db' = t_approval db" and "t_binding db' = t_binding db"
    and "t_config db' = t_config db" and "t_user db' = t_user db" and "t_store db' = t_store db"
  using assms by (auto simp: leaveRequest_create_def Let_def split: if_splits)

lemma find_user_date:
  "distinct (map (\<lambda>r. (lr_userId r, lr_date r)) rows) \<Longrightarrow> r \<in> set rows \<Longrightarrow>
   find (\<lambda>x. lr_userId x = lr_userId r \<and> lr_date x = lr_date r) rows = Some r"
  by (induction rows) (auto simp: image_iff)

lemma find_id:
  "distinct (map lr_id rows) \<Longrightarrow> r \<in> set rows \<Longrightarrow> find (\<lambda>x. lr_id x = lr_id r) rows = Some r"
  by (induction rows) (auto simp: image_iff)

lemma find_Some_set: "find P xs = Some x \<Longrightarrow> x \<in> set xs \<and> P x"
  by (induction xs) (auto split: if_splits)






section \<open>The unique indexes are kept by every handler\<close>

lemma map_if_proj:
  "(\<And>r. g (f r) = g r) \<Longrightarrow> map g (map (\<lambda>r. if P r then f r else r) rows) = map g rows"
  by (induction rows) auto

lemma list_all_map_if:
  "(\<And>r. Q (f r) = Q r) \<Longrightarrow>
   list_all Q (map (\<lambda>r. if P r then f r else r) rows) = list_all Q rows"
  by (induction rows) auto

lemma uniqueUserDate_update:
  assumes "\<And>r. lr_userId (f r) = lr_userId r" and "\<And>r. lr_date (f r) = lr_date r"
  shows "uniqueUserDate (leaveRequest_update i f db) = uniqueUserDate db"
    and "uniqueUserDate (leaveRequest_updateMany P f db) = uniqueUserDate db"
  unfolding uniqueUserDate_def leaveRequest_update_tables leaveRequest_updateMany_tables
  by (simp_all only: map_if_proj [where g = "\<lambda>r. (lr_userId r, lr_date r)"] assms)

lemma uniqueIds_update:
  assumes "\<And>r. lr_id (f r) = lr_id r"
  shows "uniqueIds (leaveRequest_update i f db) = uniqueIds db"
    and "uniqueIds (leaveRequest_updateMany P f db) = uniqueIds db"
  unfolding uniqueIds_def leaveRequest_update_tables leaveRequest_updateMany_tables
  by (simp_all only: map_if_proj [where g = lr_id] list_all_map_if assms)

lemma unique_approval_create:
  "uniqueUserDate (approval_create s i m a r db) = uniqueUserDate db"
  "uniqueIds (approval_create s i m a r db) = uniqueIds db"
  by (simp_all add: uniqueUserDate_def uniqueIds_def approval_create_tables)

lemma uniqueUserDate_create:
  assumes "leaveRequest_create storeId userId d status source creator link db = Inr (row, db')"
    and "uniqueUserDate db"
  shows "uniqueUserDate db'"
  using leaveRequest_create_Inr [OF assms(1)] assms(2)
  by (auto simp: uniqueUserDate_def list_ex_iff)

lemma uniqueIds_create:
  assumes "leaveRequest_create storeId userId d status source creator link db = Inr (row, db')"
    and "uniqueIds db"
  shows "uniqueIds db'"
  using leaveRequest_create_Inr [OF assms(1)] assms(2)
  by (fastforce simp: uniqueIds_def list_all_iff)

lemma POST_write_cases:
  assumes "POST_write user store d existingAny db = Inr (lr, db1)"
  obtains (update) e where "existingAny = Some e" "lr_status e = CANCELED \<or> lr_status e = REJECTED"
      "lr = e\<lparr>lr_status := PENDING, lr_source := SELF, lr_createdByUserId := Some (u_id user)\<rparr>"
      "db1 = leaveRequest_update (lr_id e)
               (\<lambda>r. r\<lparr>lr_status := PENDING, lr_source := SELF,
                      lr_createdByUserId := Some (u_id user)\<rparr>) db"
  | (create) "leaveRequest_create (s_id store) (u_id user) d PENDING SELF (Some (u_id user)) None db
                = Inr (lr, db1)"
proof (cases "\<exists>e. existingAny = Some e \<and> (lr_status e = CANCELED \<or> lr_status e = REJECTED)")
  case True
  then obtain e where e: "existingAny = Some e" "lr_status e = CANCELED \<or> lr_status e = REJECTED"
    by blast
  with assms have
    "lr = e\<lparr>lr_status := PENDING, lr_source := SELF, lr_createdByUserId := Some (u_id user)\<rparr>"
    "db1 = leaveRequest_update (lr_id e)
               (\<lambda>r. r\<lparr>lr_status := PENDING, lr_source := SELF,
                      lr_createdByUserId := Some (u_id user)\<rparr>) db"
    by (simp_all add: POST_write_def)
  with e show thesis by (rule update)
next
  case False
  then have "POST_write user store d existingAny db =
     leaveRequest_create (s_id store) (u_id user) d PENDING SELF (Some (u_id user)) None db"
    by (cases existingAny) (simp_all add: POST_write_def)
  with assms show thesis by (intro create) simp
qed

lemma POST_write_unique:
  assumes "POST_write user store d existingAny db = Inr (lr, db1)"
  shows "(uniqueUserDate db \<longrightarrow> uniqueUserDate db1) \<and> (uniqueIds db \<longrightarrow> uniqueIds db1)"
  using assms
proof (cases rule: POST_write_cases)
  case (update e)
  then show ?thesis by (simp add: uniqueUserDate_update uniqueIds_update)
next
  case create
  then show ?thesis using uniqueUserDate_create uniqueIds_create by blast
qed

lemma mirrorBinding_None:
  assumes "find (\<lambda>r. lr_userId r = b_assistantId b \<and> lr_date r = d) (t_leaveRequest db) = None"
  shows "mirrorBinding user store d lr b db =
         map_sum id snd
           (leaveRequest_create (s_id store) (b_assistantId b) d PENDING BINDING_MIRROR
              (Some (u_id user)) (Some (lr_id lr)) db)"
  using assms by (simp add: mirrorBinding_def)

lemma mirrorBinding_Some:
  assumes "find (\<lambda>r. lr_userId r = b_assistantId b \<and> lr_date r = d) (t_leaveRequest db) = Some e"
  shows "mirrorBinding user store d lr b db =
         (if lr_status e = PENDING \<or> lr_status e = APPROVED then Inr db
          else Inr (leaveRequest_update (lr_id e)
                      (\<lambda>r. r\<lparr>lr_status := PENDING, lr_source := BINDING_MIRROR,
                             lr_createdByUserId := Some (u_id user),
                             lr_linkedToId := Some (lr_id lr)\<rparr>) db))"
  using assms by (cases "lr_status e") (simp_all add: mirrorBinding_def)

lemma mirrorBinding_cases:
  assumes "mirrorBinding user store d lr b db = Inr db'"
  obtains (skip) e where
      "find (\<lambda>r. lr_userId r = b_assistantId b \<and> lr_date r = d) (t_leaveRequest db) = Some e"
      "lr_status e = PENDING \<or> lr_status e = APPROVED" "db' = db"
  | (update) e where
      "find (\<lambda>r. lr_userId r = b_assistantId b \<and> lr_date r = d) (t_leaveRequest db) = Some e"
      "lr_status e = CANCELED \<or> lr_status e = REJECTED"
      "db' = leaveRequest_update (lr_id e)
               (\<lambda>r. r\<lparr>lr_status := PENDING, lr_source := BINDING_MIRROR,
                      lr_createdByUserId := Some (u_id user),
                      lr_linkedToId := Some (lr_id lr)\<rparr>) db"
  | (create) row where
      "find (\<lambda>r. lr_userId r = b_assistantId b \<and> lr_date r = d) (t_leaveRequest db) = None"
      "leaveRequest_create (s_id store) (b_assistantId b) d PENDING BINDING_MIRROR
         (Some (u_id user)) (Some (lr_id lr)) db = Inr (row, db')"
proof (cases "find (\<lambda>r. lr_userId r = b_assistantId b \<and> lr_date r = d) (t_leaveRequest db)")
  case None
  from assms [unfolded mirrorBinding_None [OF None]]
  obtain row where "leaveRequest_create (s_id store) (b_assistantId b) d PENDING BINDING_MIRROR
         (Some (u_id user)) (Some (lr_id lr)) db = Inr (row, db')"
    by (cases "leaveRequest_create (s_id store) (b_assistantId b) d PENDING BINDING_MIRROR
         (Some (u_id user)) (Some (lr_id lr)) db") auto
  with None show thesis by (rule create)
next
  case (Some e)
  show thesis
  proof (cases "lr_status e = PENDING \<or> lr_status e = APPROVED")
    case True
    with assms [unfolded mirrorBinding_Some [OF Some]] have "db' = db" by simp
    with Some True show thesis by (rule skip)
  next
    case False
    with assms [unfolded mirrorBinding_Some [OF Some]]
    have "db' = leaveRequest_update (lr_id e)
               (\<lambda>r. r\<lparr>lr_status := PENDING, lr_source := BINDING_MIRROR,
                      lr_createdByUserId := Some (u_id user),
                      lr_linkedToId := Some (lr_id lr)\<rparr>) db" by simp
    moreover from False have "lr_status e = CANCELED \<or> lr_status e = REJECTED"
      by (cases "lr_status e") simp_all
    ultimately show thesis using Some by (intro update)
  qed
qed

lemma mirrorBinding_unique:
  assumes "mirrorBinding user store d lr b db = Inr db'"
  shows "(uniqueUserDate db \<longrightarrow> uniqueUserDate db') \<and> (uniqueIds db \<longrightarrow> uniqueIds db')"
  using assms
proof (cases rule: mirrorBinding_cases)
  case (skip e)
  then show ?thesis by simp
next
  case (update e)
  then show ?thesis by (simp add: uniqueUserDate_update uniqueIds_update)
next
  case (create row)
  then show ?thesis using uniqueUserDate_create uniqueIds_create by blast
qed

lemma mirrorLoop_unique:
  "mirrorLoop user store d lr bs db = (res, db') \<Longrightarrow>
   (uniqueUserDate db \<longrightarrow> uniqueUserDate db') \<and> (uniqueIds db \<longrightarrow> uniqueIds db')"
proof (induction bs arbitrary: db)
  case Nil
  then show ?case by simp
next
  case (Cons b bs)
  show ?case
  proof (cases "mirrorBinding user store d lr b db")
    case (Inl err)
    with Cons.prems show ?thesis by simp
  next
    case (Inr db1)
    with Cons.prems have "mirrorLoop user store d lr bs db1 = (res, db')" by simp
    from Cons.IH [OF this] mirrorBinding_unique [OF Inr] show ?thesis by blast
  qed
qed

lemma POST_mirrors_unique:
  assumes "POST_mirrors user store d lr db = (res, db')"
  shows "(uniqueUserDate db \<longrightarrow> uniqueUserDate db') \<and> (uniqueIds db \<longrightarrow> uniqueIds db')"
proof (cases "u_role user = DESIGNER \<and>
    getStringConfig db (s_id store) ''binding_mirror_leave'' ''auto_create'' = ''auto_create''")
  case True
  with assms have "mirrorLoop user store d lr
      [b \<leftarrow> t_binding db. b_storeId b = s_id store \<and> b_designerId b = u_id user \<and> b_active b] db
      = (res, db')"
    by (simp add: POST_mirrors_def)
  then show ?thesis by (rule mirrorLoop_unique)
next
  case False
  with assms have "db' = db" by (auto simp: POST_mirrors_def Let_def split: if_splits)
  then show ?thesis by simp
qed

lemma POST_leave_steps:
  assumes "POST_leave env db mockUserId body = (res, db')"
  shows "db' = db \<or>
         (\<exists>user store d lr db1 r.
            getCurrentUser db mockUserId = Some user \<and> body = Some d \<and>
            POST_write user store d
              (find (\<lambda>r. lr_userId r = u_id user \<and> lr_date r = d) (t_leaveRequest db)) db
              = Inr (lr, db1) \<and>
            POST_mirrors user store d lr db1 = (r, db'))"
  using assms unfolding POST_leave_def Let_def
  by (auto split: option.splits if_splits sum.splits prod.splits)

lemma POST_leave_unique:
  "(uniqueUserDate db \<longrightarrow> uniqueUserDate (snd (POST_leave env db mockUserId body))) \<and>
   (uniqueIds db \<longrightarrow> uniqueIds (snd (POST_leave env db mockUserId body)))"
proof -
  obtain res db' where eq: "POST_leave env db mockUserId body = (res, db')"
    by (cases "POST_leave env db mockUserId body")
  from POST_leave_steps [OF eq] show ?thesis
  proof
    assume "db' = db"
    with eq show ?thesis by simp
  next
    assume "\<exists>user store d lr db1 r.
            getCurrentUser db mockUserId = Some user \<and> body = Some d \<and>
            POST_write user store d
              (find (\<lambda>r. lr_userId r = u_id user \<and> lr_date r = d) (t_leaveRequest db)) db
              = Inr (lr, db1) \<and>
            POST_mirrors user store d lr db1 = (r, db')"
    then obtain user store d lr db1 r where
      w: "POST_write user store d
              (find (\<lambda>r. lr_userId r = u_id user \<and> lr_date r = d) (t_leaveRequest db)) db
              = Inr (lr, db1)"
      and m: "POST_mirrors user store d lr db1 = (r, db')" by blast
    from POST_write_unique [OF w] POST_mirrors_unique [OF m] eq show ?thesis by simp
  qed
qed

lemma DELETE_leave_steps:
  "snd (DELETE_leave db mockUserId body) = db \<or>
   (\<exists>(user::User) existing. existing \<in> set (t_leaveRequest db) \<and> lr_status existing = PENDING \<and>
      snd (DELETE_leave db mockUserId body) =
        leaveRequest_updateMany
          (\<lambda>r. lr_storeId r = u_storeId user \<and> lr_linkedToId r = Some (lr_id existing) \<and>
                lr_status r = PENDING \<and> lr_createdByUserId r = Some (u_id user))
          (\<lambda>r. r\<lparr>lr_status := CANCELED\<rparr>)
          (leaveRequest_update (lr_id existing) (\<lambda>r. r\<lparr>lr_status := CANCELED\<rparr>) db))"
proof (cases "getCurrentUser db mockUserId")
  case None
  then show ?thesis by (simp add: DELETE_leave_def)
next
  case (Some user)
  note u = this
  show ?thesis
  proof (cases body)
    case None
    with u show ?thesis by (simp add: DELETE_leave_def)
  next
    case (Some d)
    note b = this
    show ?thesis
    proof (cases "length d < 1 \<or> \<not> isIsoDate d")
      case True
      with u b show ?thesis by (simp add: DELETE_leave_def)
    next
      case False
      note iso = this
      show ?thesis
      proof (cases "find (\<lambda>r. lr_storeId r = u_storeId user \<and> lr_userId r = u_id user \<and>
                lr_date r = d \<and> (lr_status r = PENDING \<or> lr_status r = APPROVED))
                (t_leaveRequest db)")
        case None
        with u b iso show ?thesis by (simp add: DELETE_leave_def)
      next
        case (Some existing)
        note f = this
        show ?thesis
        proof (cases "lr_createdByUserId existing = Some (u_id user) \<and> lr_status existing = PENDING")
          case False
          with u b iso f have "snd (DELETE_leave db mockUserId body) = db"
            by (auto simp add: DELETE_leave_def)
          then show ?thesis by simp
        next
          case True
          from find_Some_set [OF f] have mem: "existing \<in> set (t_leaveRequest db)" by simp
          from u b iso f True
          have "snd (DELETE_leave db mockUserId body) =
            leaveRequest_updateMany
              (\<lambda>r. lr_storeId r = u_storeId user \<and> lr_linkedToId r = Some (lr_id existing) \<and>
                    lr_status r = PENDING \<and> lr_createdByUserId r = Some (u_id user))
              (\<lambda>r. r\<lparr>lr_status := CANCELED\<rparr>)
              (leaveRequest_update (lr_id existing) (\<lambda>r. r\<lparr>lr_status := CANCELED\<rparr>) db)"
            by (simp add: DELETE_leave_def Let_def)
          with mem True have c: "existing \<in> set (t_leaveRequest db) \<and> lr_status existing = PENDING \<and>
            snd (DELETE_leave db mockUserId body) =
            leaveRequest_updateMany
              (\<lambda>r. lr_storeId r = u_storeId user \<and> lr_linkedToId r = Some (lr_id existing) \<and>
                    lr_status r = PENDING \<and> lr_createdByUserId r = Some (u_id user))
              (\<lambda>r. r\<lparr>lr_status := CANCELED\<rparr>)
              (leaveRequest_update (lr_id existing) (\<lambda>r. r\<lparr>lr_status := CANCELED\<rparr>) db)"
            by simp
          show ?thesis by (rule disjI2, rule exI, rule exI, rule c)
        qed
      qed
    qed
  qed
qed

lemma DELETE_leave_unique:
  "(uniqueUserDate db \<longrightarrow> uniqueUserDate (snd (DELETE_leave db mockUserId body))) \<and>
   (uniqueIds db \<longrightarrow> uniqueIds (snd (DELETE_leave db mockUserId body)))"
proof -
  from DELETE_leave_steps [of db mockUserId body] show ?thesis
  proof (elim disjE exE conjE)
    assume "snd (DELETE_leave db mockUserId body) = db"
    then show ?thesis by simp
  next
    fix user :: User and existing
    assume "snd (DELETE_leave db mockUserId body) =
        leaveRequest_updateMany
          (\<lambda>r. lr_storeId r = u_storeId user \<and> lr_linkedToId r = Some (lr_id existing) \<and>
                lr_status r = PENDING \<and> lr_createdByUserId r = Some (u_id user))
          (\<lambda>r. r\<lparr>lr_status := CANCELED\<rparr>)
          (leaveRequest_update (lr_id existing) (\<lambda>r. r\<lparr>lr_status := CANCELED\<rparr>) db)"
    then show ?thesis by (simp add: uniqueUserDate_update uniqueIds_update)
  qed
qed

lemma approvalTransaction_unique:
  "uniqueUserDate (approvalTransaction user i action reason db) = uniqueUserDate db"
  "uniqueIds (approvalTransaction user i action reason db) = uniqueIds db"
  unfolding approvalTransaction_def Let_def
  by (simp_all add: uniqueUserDate_update uniqueIds_update unique_approval_create)

lemma POST_approval_steps:
  "snd (POST_approval db mockUserId i body) = db \<or>
   (\<exists>user action reason lr. lr \<in> set (t_leaveRequest db) \<and> lr_id lr = i \<and>
      lr_status lr = PENDING \<and>
      snd (POST_approval db mockUserId i body) = approvalTransaction user i action reason db)"
proof (cases "getCurrentUser db mockUserId")
  case None
  then show ?thesis by (simp add: POST_approval_def)
next
  case (Some user)
  note u = this
  show ?thesis
  proof (cases "u_role user = MANAGER")
    case False
    with u show ?thesis by (simp add: POST_approval_def)
  next
    case True
    note m = this
    show ?thesis
    proof (cases body)
      case None
      with u m show ?thesis by (simp add: POST_approval_def)
    next
      case (Some p)
      note b = this
      obtain action reason where p: "p = (action, reason)" by (cases p)
      show ?thesis
      proof (cases "find (\<lambda>r. lr_id r = i \<and> lr_storeId r = u_storeId user)
                      (t_leaveRequest db)")
        case None
        with u m b p show ?thesis by (simp add: POST_approval_def)
      next
        case (Some lr)
        note f = this
        show ?thesis
        proof (cases "lr_status lr = PENDING")
          case False
          with u m b p f show ?thesis by (simp add: POST_approval_def)
        next
          case True
          from find_Some_set [OF f] have mem: "lr \<in> set (t_leaveRequest db)" "lr_id lr = i"
            by simp_all
          from u m b p f True
          have "snd (POST_approval db mockUserId i body) =
                approvalTransaction user i action reason db"
            by (simp add: POST_approval_def)
          with mem True have c: "lr \<in> set (t_leaveRequest db) \<and> lr_id lr = i \<and>
            lr_status lr = PENDING \<and>
            snd (POST_approval db mockUserId i body) = approvalTransaction user i action reason db"
            by simp
          show ?thesis by (rule disjI2, rule exI, rule exI, rule exI, rule exI, rule c)
        qed
      qed
    qed
  qed
qed

lemma POST_approval_unique:
  "(uniqueUserDate db \<longrightarrow> uniqueUserDate (snd (POST_approval db mockUserId i body))) \<and>
   (uniqueIds db \<longrightarrow> uniqueIds (snd (POST_approval db mockUserId i body)))"
proof -
  from POST_approval_steps [of db mockUserId i body] show ?thesis
  proof (elim disjE exE conjE)
    assume "snd (POST_approval db mockUserId i body) = db"
    then show ?thesis by simp
  next
    fix user action reason lr
    assume "snd (POST_approval db mockUserId i body) =
            approvalTransaction user i action reason db"
    then show ?thesis by (simp add: approvalTransaction_unique)
  qed
qed

lemma setLeaveStatus_steps:
  "setLeaveStatus db mockUserId idField actionField = db \<or>
   (\<exists>user i action lr. lr \<in> set (t_leaveRequest db) \<and> lr_id lr = i \<and>
      lr_status lr = PENDING \<and>
      setLeaveStatus db mockUserId idField actionField =
        approvalTransaction user i action None db)"
proof (cases "getCurrentUser db mockUserId")
  case None
  then show ?thesis by (simp add: setLeaveStatus_def)
next
  case (Some user)
  note u = this
  show ?thesis
  proof (cases "u_role user = MANAGER")
    case False
    with u show ?thesis by (simp add: setLeaveStatus_def)
  next
    case True
    note m = this
    show ?thesis
    proof (cases idField)
      case None
      with u m show ?thesis by (simp add: setLeaveStatus_def)
    next
      case (Some i)
      note b = this
      show ?thesis
      proof (cases "find (\<lambda>r. lr_id r = i \<and> lr_storeId r = u_storeId user)
                      (t_leaveRequest db)")
        case None
        with u m b show ?thesis by (simp add: setLeaveStatus_def)
      next
        case (Some lr)
        note f = this
        show ?thesis
        proof (cases "lr_status lr = PENDING")
          case False
          with u m b f show ?thesis by (simp add: setLeaveStatus_def)
        next
          case True
          note pend = this
          show ?thesis
          proof (cases "parseAction actionField")
            case None
            with u m b f pend show ?thesis by (simp add: setLeaveStatus_def)
          next
            case (Some action)
            from find_Some_set [OF f] have mem: "lr \<in> set (t_leaveRequest db)" "lr_id lr = i"
              by simp_all
            from u m b f pend Some
            have "setLeaveStatus db mockUserId idField actionField =
                  approvalTransaction user i action None db"
              by (simp add: setLeaveStatus_def)
            with mem pend have c: "lr \<in> set (t_leaveRequest db) \<and> lr_id lr = i \<and>
              lr_status lr = PENDING \<and>
              setLeaveStatus db mockUserId idField actionField =
                approvalTransaction user i action None db"
              by simp
            show ?thesis by (rule disjI2, rule exI, rule exI, rule exI, rule exI, rule c)
          qed
        qed
      qed
    qed
  qed
qed

lemma setLeaveStatus_unique:
  "(uniqueUserDate db \<longrightarrow> uniqueUserDate (setLeaveStatus db mockUserId idField actionField)) \<and>
   (uniqueIds db \<longrightarrow> uniqueIds (setLeaveStatus db mockUserId idField actionField))"
proof -
  from setLeaveStatus_steps [of db mockUserId idField actionField] show ?thesis
  proof (elim disjE exE conjE)
    assume "setLeaveStatus db mockUserId idField actionField = db"
    then show ?thesis by simp
  next
    fix user i action lr
    assume "setLeaveStatus db mockUserId idField actionField =
            approvalTransaction user i action None db"
    then show ?thesis by (simp add: approvalTransaction_unique)
  qed
qed

lemma createManagerLeave_result:
  assumes "getCurrentUser db mockUserId = Some me" and "u_role me = MANAGER"
    and "userId \<noteq> []" and "isIsoDate d"
    and "find (\<lambda>u. u_id u = userId \<and> u_storeId u = u_storeId me \<and> u_active u) (t_user db) =
         Some target"
  shows "createManagerLeave db mockUserId userId d =
     (case find (\<lambda>r. lr_storeId r = u_storeId me \<and> lr_userId r = u_id target \<and> lr_date r = d)
             (t_leaveRequest db) of
        Some existing \<Rightarrow>
          (None,
           approval_create (u_storeId me) (lr_id existing) (u_id me) FORCE_APPROVE None
             (leaveRequest_update (lr_id existing)
                (\<lambda>r. r\<lparr>lr_status := APPROVED, lr_source := SOURCE_MANAGER,
                       lr_createdByUserId := Some (u_id me)\<rparr>) db))
      | None \<Rightarrow>
          (case leaveRequest_create (u_storeId me) (u_id target) d APPROVED SOURCE_MANAGER
                  (Some (u_id me)) None db of
             Inl err \<Rightarrow> (Some err, db)
           | Inr (created, db1) \<Rightarrow>
               (None,
                approval_create (u_storeId me) (lr_id created) (u_id me) FORCE_APPROVE None
                  db1)))"
  using assms by (simp add: createManagerLeave_def)

lemma createManagerLeave_noop:
  assumes "\<not> (\<exists>me target. getCurrentUser db mockUserId = Some me \<and> u_role me = MANAGER \<and>
      userId \<noteq> [] \<and> isIsoDate d \<and>
      find (\<lambda>u. u_id u = userId \<and> u_storeId u = u_storeId me \<and> u_active u) (t_user db) =
         Some target)"
  shows "createManagerLeave db mockUserId userId d = (None, db)"
  using assms by (auto simp add: createManagerLeave_def split: option.splits)

lemma createManagerLeave_unique:
  "(uniqueUserDate db \<longrightarrow> uniqueUserDate (snd (createManagerLeave db mockUserId userId d))) \<and>
   (uniqueIds db \<longrightarrow> uniqueIds (snd (createManagerLeave db mockUserId userId d)))"
proof (cases "\<exists>me target. getCurrentUser db mockUserId = Some me \<and> u_role me = MANAGER \<and>
      userId \<noteq> [] \<and> isIsoDate d \<and>
      find (\<lambda>u. u_id u = userId \<and> u_storeId u = u_storeId me \<and> u_active u) (t_user db) =
         Some target")
  case False
  then show ?thesis by (simp add: createManagerLeave_noop)
next
  case True
  then obtain me target where h: "getCurrentUser db mockUserId = Some me" "u_role me = MANAGER"
      "userId \<noteq> []" "isIsoDate d"
      "find (\<lambda>u. u_id u = userId \<and> u_storeId u = u_storeId me \<and> u_active u) (t_user db) =
         Some target"
    by blast
  note res = createManagerLeave_result [OF h]
  show ?thesis
  proof (cases "find (\<lambda>r. lr_storeId r = u_storeId me \<and> lr_userId r = u_id target \<and> lr_date r = d)
             (t_leaveRequest db)")
    case (Some existing)
    then show ?thesis unfolding res
      by (simp add: unique_approval_create uniqueUserDate_update uniqueIds_update)
  next
    case None
    show ?thesis
    proof (cases "leaveRequest_create (u_storeId me) (u_id target) d APPROVED SOURCE_MANAGER
                  (Some (u_id me)) None db")
      case (Inl err)
      with None show ?thesis unfolding res by simp
    next
      case (Inr p)
      obtain created db1 where p: "p = (created, db1)" by (cases p)
      from Inr p uniqueUserDate_create uniqueIds_create
      have "(uniqueUserDate db \<longrightarrow> uniqueUserDate db1) \<and> (uniqueIds db \<longrightarrow> uniqueIds db1)"
        by blast
      with None Inr p show ?thesis unfolding res
        by (simp add: unique_approval_create)
    qed
  qed
qed

lemma clearAllLeaves_rows:
  "t_leaveRequest (clearAllLeaves db mockUserId) = t_leaveRequest db \<or>
   (\<exists>G s. t_leaveRequest (clearAllLeaves db mockUserId) =
      map (\<lambda>r. case lr_linkedToId r of
                  Some j \<Rightarrow> if j \<in> G then r\<lparr>lr_linkedToId := None\<rparr> else r
                | None \<Rightarrow> r)
        [r \<leftarrow> t_leaveRequest db. lr_storeId r \<noteq> s])"
  "nextId (clearAllLeaves db mockUserId) = nextId db"
  unfolding clearAllLeaves_def Let_def
  by (simp_all split: option.splits) blast

lemma map_unlink_proj:
  "(\<And>r. g (r\<lparr>lr_linkedToId := None\<rparr>) = g r) \<Longrightarrow>
   map g (map (\<lambda>r. case lr_linkedToId r of
                     Some j \<Rightarrow> if j \<in> G then r\<lparr>lr_linkedToId := None\<rparr> else r
                   | None \<Rightarrow> r) rows) = map g rows"
  by (induction rows) (auto split: option.splits)

lemma clearAllLeaves_unique:
  "(uniqueUserDate db \<longrightarrow> uniqueUserDate (clearAllLeaves db mockUserId)) \<and>
   (uniqueIds db \<longrightarrow> uniqueIds (clearAllLeaves db mockUserId))"
proof -
  from clearAllLeaves_rows(1) [of db mockUserId] show ?thesis
  proof
    assume "t_leaveRequest (clearAllLeaves db mockUserId) = t_leaveRequest db"
    then show ?thesis
      by (simp add: uniqueUserDate_def uniqueIds_def clearAllLeaves_rows(2))
  next
    assume "\<exists>G s. t_leaveRequest (clearAllLeaves db mockUserId) =
      map (\<lambda>r. case lr_linkedToId r of
                  Some j \<Rightarrow> if j \<in> G then r\<lparr>lr_linkedToId := None\<rparr> else r
                | None \<Rightarrow> r)
        [r \<leftarrow> t_leaveRequest db. lr_storeId r \<noteq> s]"
    then obtain G s where rows: "t_leaveRequest (clearAllLeaves db mockUserId) =
      map (\<lambda>r. case lr_linkedToId r of
                  Some j \<Rightarrow> if j \<in> G then r\<lparr>lr_linkedToId := None\<rparr> else r
                | None \<Rightarrow> r)
        [r \<leftarrow> t_leaveRequest db. lr_storeId r \<noteq> s]" by blast
    have k: "map (\<lambda>r. (lr_userId r, lr_date r)) (t_leaveRequest (clearAllLeaves db mockUserId)) =
             map (\<lambda>r. (lr_userId r, lr_date r)) [r \<leftarrow> t_leaveRequest db. lr_storeId r \<noteq> s]"
      unfolding rows by (rule map_unlink_proj) simp
    have i: "map lr_id (t_leaveRequest (clearAllLeaves db mockUserId)) =
             map lr_id [r \<leftarrow> t_leaveRequest db. lr_storeId r \<noteq> s]"
      unfolding rows by (rule map_unlink_proj) simp
    have b: "list_all (\<lambda>r. lr_id r < n) rows = list_all (\<lambda>i. i < n) (map lr_id rows)"
      for n and rows :: "LeaveRequest list"
      by (simp add: list_all_iff)
    show ?thesis
      unfolding uniqueUserDate_def uniqueIds_def b k i clearAllLeaves_rows(2)
      by (auto simp: distinct_map_filter list_all_iff)
  qed
qed

lemma perform_unique:
  "(uniqueUserDate db \<longrightarrow> uniqueUserDate (perform db c)) \<and>
   (uniqueIds db \<longrightarrow> uniqueIds (perform db c))"
  using POST_leave_unique DELETE_leave_unique POST_approval_unique setLeaveStatus_unique
    createManagerLeave_unique clearAllLeaves_unique
  by (cases c) simp_all

lemma reachable_unique: "reachable db \<Longrightarrow> uniqueUserDate db \<and> uniqueIds db"
proof (induction rule: reachable.induct)
  case (r_init db)
  then show ?case by (simp add: uniqueUserDate_def uniqueIds_def)
next
  case (r_call db c)
  then show ?case using perform_unique by blast
next
  case (r_other db db')
  then show ?case by (simp add: uniqueUserDate_def uniqueIds_def)
qed


section \<open>Records that a handler keeps or reuses\<close>

lemma same_id_same_row:
  "distinct (map lr_id rows) \<Longrightarrow> r \<in> set rows \<Longrightarrow> e \<in> set rows \<Longrightarrow> lr_id r = lr_id e \<Longrightarrow> r = e"
  by (auto simp: distinct_map inj_on_def)

lemma same_key_same_row:
  "distinct (map (\<lambda>r. (lr_userId r, lr_date r)) rows) \<Longrightarrow> r \<in> set rows \<Longrightarrow> e \<in> set rows \<Longrightarrow>
   lr_userId r = lr_userId e \<Longrightarrow> lr_date r = lr_date e \<Longrightarrow> r = e"
  by (auto simp: distinct_map inj_on_def)

lemma update_keeps_row:
  assumes "uniqueIds db" and "e \<in> set (t_leaveRequest db)" and "r \<in> set (t_leaveRequest db)"
    and "r \<noteq> e"
  shows "r \<in> set (t_leaveRequest (leaveRequest_update (lr_id e) f db))"
proof -
  from assms have "lr_id r \<noteq> lr_id e"
    using same_id_same_row [of "t_leaveRequest db" r e] by (auto simp: uniqueIds_def)
  with assms(3) show ?thesis
    by (auto simp: leaveRequest_update_tables image_iff intro!: bexI [of _ r])
qed

lemma update_puts_row:
  assumes "e \<in> set (t_leaveRequest db)"
  shows "f e \<in> set (t_leaveRequest (leaveRequest_update (lr_id e) f db))"
  using assms by (auto simp: leaveRequest_update_tables image_iff intro!: bexI [of _ e])

lemma create_keeps_row:
  assumes "leaveRequest_create storeId userId d status source creator link db = Inr (row, db')"
  shows "r \<in> set (t_leaveRequest db) \<Longrightarrow> r \<in> set (t_leaveRequest db')"
    and "row \<in> set (t_leaveRequest db')"
  using leaveRequest_create_Inr [OF assms] by simp_all

lemma mirrorBinding_keeps_active:
  assumes "uniqueIds db" and "mirrorBinding user store d lr b db = Inr db'"
    and "r \<in> set (t_leaveRequest db)" and "lr_status r = PENDING \<or> lr_status r = APPROVED"
  shows "r \<in> set (t_leaveRequest db')"
  using assms(2)
proof (cases rule: mirrorBinding_cases)
  case (skip e)
  with assms(3) show ?thesis by simp
next
  case (update e)
  from update(1) have "e \<in> set (t_leaveRequest db)" by (auto dest: find_Some_set)
  moreover from update(2) assms(4) have "r \<noteq> e" by auto
  ultimately show ?thesis unfolding update(3) using assms(1,3) by (intro update_keeps_row)
next
  case (create row)
  from create_keeps_row(1) [OF create(2) assms(3)] show ?thesis .
qed

lemma mirrorLoop_keeps_active:
  "uniqueIds db \<Longrightarrow> mirrorLoop user store d lr bs db = (res, db') \<Longrightarrow>
   r \<in> set (t_leaveRequest db) \<Longrightarrow> lr_status r = PENDING \<or> lr_status r = APPROVED \<Longrightarrow>
   r \<in> set (t_leaveRequest db')"
proof (induction bs arbitrary: db)
  case Nil
  then show ?case by simp
next
  case (Cons b bs)
  show ?case
  proof (cases "mirrorBinding user store d lr b db")
    case (Inl err)
    with Cons.prems show ?thesis by simp
  next
    case (Inr db1)
    with Cons.prems have loop: "mirrorLoop user store d lr bs db1 = (res, db')" by simp
    from mirrorBinding_unique [OF Inr] Cons.prems(1) have u: "uniqueIds db1" by blast
    from mirrorBinding_keeps_active [OF Cons.prems(1) Inr Cons.prems(3,4)]
    have "r \<in> set (t_leaveRequest db1)" .
    from Cons.IH [OF u loop this Cons.prems(4)] show ?thesis .
  qed
qed

lemma POST_mirrors_steps:
  assumes "POST_mirrors user store d lr db = (res, db')"
  shows "(res = None \<and> db' = db) \<or>
         (u_role user = DESIGNER \<and>
          getStringConfig db (s_id store) ''binding_mirror_leave'' ''auto_create'' = ''auto_create'' \<and>
          mirrorLoop user store d lr
            [b \<leftarrow> t_binding db. b_storeId b = s_id store \<and> b_designerId b = u_id user \<and> b_active b]
            db = (res, db'))"
  using assms unfolding POST_mirrors_def Let_def by (auto split: if_splits)

lemma POST_mirrors_keeps_active:
  assumes "uniqueIds db" and "POST_mirrors user store d lr db = (res, db')"
    and "r \<in> set (t_leaveRequest db)" and "lr_status r = PENDING \<or> lr_status r = APPROVED"
  shows "r \<in> set (t_leaveRequest db')"
  using POST_mirrors_steps [OF assms(2)] mirrorLoop_keeps_active [OF assms(1) _ assms(3,4)] assms(3)
  by blast

lemma POST_write_keeps_active:
  assumes "uniqueIds db" and "POST_write user store d existingAny db = Inr (lr, db1)"
    and "\<And>e. existingAny = Some e \<Longrightarrow> e \<in> set (t_leaveRequest db)"
    and "r \<in> set (t_leaveRequest db)" and "lr_status r = PENDING \<or> lr_status r = APPROVED"
  shows "r \<in> set (t_leaveRequest db1)"
  using assms(2)
proof (cases rule: POST_write_cases)
  case (update e)
  from update(1) assms(3) have "e \<in> set (t_leaveRequest db)" by simp
  moreover from update(2) assms(5) have "r \<noteq> e" by auto
  ultimately show ?thesis unfolding update(4) using assms(1,4) by (intro update_keeps_row)
next
  case create
  from create_keeps_row(1) [OF create assms(4)] show ?thesis .
qed

lemma POST_write_returns:
  assumes "POST_write user store d existingAny db = Inr (lr, db1)"
    and "\<And>e. existingAny = Some e \<Longrightarrow>
           e \<in> set (t_leaveRequest db) \<and> lr_userId e = u_id user \<and> lr_date e = d"
  shows "lr \<in> set (t_leaveRequest db1) \<and> lr_userId lr = u_id user \<and> lr_date lr = d \<and>
         lr_status lr = PENDING \<and> lr_source lr = SELF \<and>
         lr_createdByUserId lr = Some (u_id user)"
  using assms(1)
proof (cases rule: POST_write_cases)
  case (update e)
  from update(1) assms(2) have e: "e \<in> set (t_leaveRequest db)" "lr_userId e = u_id user"
    "lr_date e = d" by simp_all
  from update_puts_row [OF e(1)] e(2,3) show ?thesis unfolding update(3,4) by simp
next
  case create
  from leaveRequest_create_Inr(2,3) [OF create] show ?thesis by simp
qed

lemma POST_leave_reuses_record:
  assumes "uniqueUserDate db" and "uniqueIds db"
    and "POST_leave env db mockUserId (Some d) = (Inr lr, db')"
    and "getCurrentUser db mockUserId = Some user"
    and "e \<in> set (t_leaveRequest db)" and "lr_userId e = u_id user" and "lr_date e = d"
  shows "lr = e\<lparr>lr_status := PENDING, lr_source := SELF, lr_createdByUserId := Some (u_id user)\<rparr> \<and>
         (lr_status e = CANCELED \<or> lr_status e = REJECTED) \<and>
         lr \<in> set (t_leaveRequest db') \<and>
         list_all (\<lambda>r. lr_userId r = u_id user \<and> lr_date r = d \<longrightarrow> r = lr) (t_leaveRequest db')"
proof -
  from assms(3) obtain user' d' store db1 where
    u: "getCurrentUser db mockUserId = Some user'" and d: "Some d = Some d'"
    and w: "POST_write user' store d'
       (find (\<lambda>r. lr_userId r = u_id user' \<and> lr_date r = d') (t_leaveRequest db)) db = Inr (lr, db1)"
    and m: "POST_mirrors user' store d' lr db1 = (None, db')"
    by (rule POST_leave_success)
  from u d assms(4) have eq: "user' = user" "d' = d" by simp_all
  from assms(1,5) have "find (\<lambda>x. lr_userId x = lr_userId e \<and> lr_date x = lr_date e)
                          (t_leaveRequest db) = Some e"
    unfolding uniqueUserDate_def by (rule find_user_date)
  with assms(6,7) have f: "find (\<lambda>r. lr_userId r = u_id user \<and> lr_date r = d) (t_leaveRequest db) = Some e"
    by simp
  note w' = w [unfolded eq f]
  from w' have upd: "lr = e\<lparr>lr_status := PENDING, lr_source := SELF,
                              lr_createdByUserId := Some (u_id user)\<rparr> \<and>
                     (lr_status e = CANCELED \<or> lr_status e = REJECTED)"
  proof (cases rule: POST_write_cases)
    case (update e')
    then show ?thesis by simp
  next
    case create
    from leaveRequest_create_Inr(1) [OF create] assms(5,6,7) show ?thesis
      by (auto simp: list_ex_iff)
  qed
  from POST_write_returns [OF w'] assms(5,6,7)
  have lr: "lr \<in> set (t_leaveRequest db1)" "lr_userId lr = u_id user" "lr_date lr = d"
    "lr_status lr = PENDING" by simp_all
  from POST_write_unique [OF w'] assms(1,2) have u1: "uniqueUserDate db1" "uniqueIds db1"
    by simp_all
  from POST_mirrors_keeps_active [OF u1(2) m [unfolded eq] lr(1)] lr(4)
  have mem: "lr \<in> set (t_leaveRequest db')" by simp
  from POST_mirrors_unique [OF m [unfolded eq]] u1 have "uniqueUserDate db'" by simp
  then have "r = lr" if "r \<in> set (t_leaveRequest db')" "lr_userId r = u_id user" "lr_date r = d" for r
    unfolding uniqueUserDate_def using same_key_same_row [OF _ that(1) mem] that(2,3) lr(2,3)
    by simp
  with upd mem show ?thesis by (simp add: list_all_iff)
qed

lemma find_store_user_date:
  assumes "uniqueUserDate db" and "e \<in> set (t_leaveRequest db)"
  shows "find (\<lambda>r. lr_storeId r = s \<and> lr_userId r = lr_userId e \<and> lr_date r = lr_date e)
           (t_leaveRequest db) = (if lr_storeId e = s then Some e else None)"
proof (cases "find (\<lambda>r. lr_storeId r = s \<and> lr_userId r = lr_userId e \<and> lr_date r = lr_date e)
           (t_leaveRequest db)")
  case None
  with assms(2) show ?thesis by (auto simp: find_None_iff)
next
  case (Some x)
  then have x: "x \<in> set (t_leaveRequest db)" "lr_storeId x = s" "lr_userId x = lr_userId e"
    "lr_date x = lr_date e" by (auto dest: find_Some_set)
  with assms have "x = e" unfolding uniqueUserDate_def by (intro same_key_same_row)
  with Some x show ?thesis by simp
qed

lemma createManagerLeave_reuses_record:
  assumes "uniqueUserDate db"
    and "getCurrentUser db mockUserId = Some me" and "u_role me = MANAGER"
    and "userId \<noteq> []" and "isIsoDate d"
    and "find (\<lambda>u. u_id u = userId \<and> u_storeId u = u_storeId me \<and> u_active u) (t_user db) =
         Some target"
    and "e \<in> set (t_leaveRequest db)" and "lr_userId e = userId" and "lr_date e = d"
  shows "lr_storeId e = u_storeId me \<longrightarrow>
         createManagerLeave db mockUserId userId d =
           (None, approval_create (u_storeId me) (lr_id e) (u_id me) FORCE_APPROVE None
                    (leaveRequest_update (lr_id e)
                       (\<lambda>r. r\<lparr>lr_status := APPROVED, lr_source := SOURCE_MANAGER,
                              lr_createdByUserId := Some (u_id me)\<rparr>) db))"
    and "lr_storeId e \<noteq> u_storeId me \<longrightarrow>
         createManagerLeave db mockUserId userId d = (Some UNIQUE_CONSTRAINT, db)"
proof -
  from assms(6) have t: "u_id target = userId" by (auto dest: find_Some_set)
  from find_store_user_date [OF assms(1,7), of "u_storeId me"] assms(8,9) t
  have f: "find (\<lambda>r. lr_storeId r = u_storeId me \<and> lr_userId r = u_id target \<and> lr_date r = d)
             (t_leaveRequest db) = (if lr_storeId e = u_storeId me then Some e else None)"
    by simp
  have dup: "leaveRequest_create (u_storeId me) (u_id target) d APPROVED SOURCE_MANAGER
                  (Some (u_id me)) None db = Inl UNIQUE_CONSTRAINT"
    using assms(7,8,9) t by (auto simp: leaveRequest_create_def list_ex_iff)
  note res = createManagerLeave_result [OF assms(2-6)]
  show "lr_storeId e = u_storeId me \<longrightarrow>
         createManagerLeave db mockUserId userId d =
           (None, approval_create (u_storeId me) (lr_id e) (u_id me) FORCE_APPROVE None
                    (leaveRequest_update (lr_id e)
                       (\<lambda>r. r\<lparr>lr_status := APPROVED, lr_source := SOURCE_MANAGER,
                              lr_createdByUserId := Some (u_id me)\<rparr>) db))"
    unfolding res f by simp
  show "lr_storeId e \<noteq> u_storeId me \<longrightarrow>
         createManagerLeave db mockUserId userId d = (Some UNIQUE_CONSTRAINT, db)"
    unfolding res f dup by simp
qed


section \<open>The mirrors of a designer's request: supporting facts\<close>

lemma update_other_no_active:
  assumes "uniqueIds db" and "e \<in> set (t_leaveRequest db)" and "lr_userId e \<noteq> a"
    and "\<And>r. lr_userId (f r) = lr_userId r"
    and "\<not> hasActive db a d"
  shows "\<not> hasActive (leaveRequest_update (lr_id e) f db) a d"
proof
  assume "hasActive (leaveRequest_update (lr_id e) f db) a d"
  then obtain r where r: "r \<in> set (t_leaveRequest db)"
    and act: "lr_userId (if lr_id r = lr_id e then f r else r) = a"
      "lr_date (if lr_id r = lr_id e then f r else r) = d"
      "lr_status (if lr_id r = lr_id e then f r else r) = PENDING \<or>
       lr_status (if lr_id r = lr_id e then f r else r) = APPROVED"
    by (auto simp: hasActive_def list_ex_iff leaveRequest_update_tables)
  show False
  proof (cases "lr_id r = lr_id e")
    case True
    with assms(1,2) r have "r = e"
      using same_id_same_row [of "t_leaveRequest db" r e] by (simp add: uniqueIds_def)
    with True act(1) assms(3,4) show False by simp
  next
    case False
    with act r have "hasActive db a d" by (auto simp: hasActive_def list_ex_iff)
    with assms(5) show False by simp
  qed
qed

lemma create_other_no_active:
  assumes "leaveRequest_create storeId userId d' status source creator link db = Inr (row, db')"
    and "userId \<noteq> a" and "\<not> hasActive db a d"
  shows "\<not> hasActive db' a d"
  using leaveRequest_create_Inr(2,3) [OF assms(1)] assms(2,3)
  by (auto simp: hasActive_def list_ex_iff)

lemma mirrorBinding_other_no_active:
  assumes "uniqueIds db" and "mirrorBinding user store d lr b db = Inr db'"
    and "b_assistantId b \<noteq> a" and "\<not> hasActive db a d"
  shows "\<not> hasActive db' a d"
  using assms(2)
proof (cases rule: mirrorBinding_cases)
  case (skip e)
  with assms(4) show ?thesis by simp
next
  case (update e)
  from find_Some_set [OF update(1)] have e: "e \<in> set (t_leaveRequest db)"
    "lr_userId e = b_assistantId b" by simp_all
  show ?thesis unfolding update(3)
    using assms(1) e(1) _ _ assms(4)
  proof (rule update_other_no_active)
    from e(2) assms(3) show "lr_userId e \<noteq> a" by simp
  qed simp
next
  case (create row)
  from create_other_no_active [OF create(2) assms(3,4)] show ?thesis .
qed

lemma mirrorBinding_establishes:
  assumes "mirrorBinding user store d lr b db = Inr db'"
    and "\<not> hasActive db (b_assistantId b) d"
  shows "\<exists>m\<in>set (t_leaveRequest db'). isMirrorOf user lr (b_assistantId b) d m"
  using assms(1)
proof (cases rule: mirrorBinding_cases)
  case (skip e)
  from find_Some_set [OF skip(1)] skip(2) have "hasActive db (b_assistantId b) d"
    by (auto simp: hasActive_def list_ex_iff)
  with assms(2) show ?thesis by simp
next
  case (update e)
  from find_Some_set [OF update(1)] have e: "e \<in> set (t_leaveRequest db)"
    "lr_userId e = b_assistantId b" "lr_date e = d" by simp_all
  have "e\<lparr>lr_status := PENDING, lr_source := BINDING_MIRROR,
          lr_createdByUserId := Some (u_id user), lr_linkedToId := Some (lr_id lr)\<rparr>
        \<in> set (t_leaveRequest db')"
    unfolding update(3) using e(1) by (rule update_puts_row)
  moreover have "isMirrorOf user lr (b_assistantId b) d
       (e\<lparr>lr_status := PENDING, lr_source := BINDING_MIRROR,
          lr_createdByUserId := Some (u_id user), lr_linkedToId := Some (lr_id lr)\<rparr>)"
    using e(2,3) by (simp add: isMirrorOf_def)
  ultimately show ?thesis by blast
next
  case (create row)
  from leaveRequest_create_Inr(2,3) [OF create(2)] show ?thesis
    by (auto simp: isMirrorOf_def)
qed

lemma mirrorLoop_establishes:
  "uniqueIds db \<Longrightarrow> mirrorLoop user store d lr bs db = (None, db') \<Longrightarrow>
   (\<exists>m\<in>set (t_leaveRequest db). isMirrorOf user lr a d m) \<or>
   (a \<in> b_assistantId ` set bs \<and> \<not> hasActive db a d) \<Longrightarrow>
   \<exists>m\<in>set (t_leaveRequest db'). isMirrorOf user lr a d m"
proof (induction bs arbitrary: db)
  case Nil
  then show ?case by simp
next
  case (Cons b bs)
  show ?case
  proof (cases "mirrorBinding user store d lr b db")
    case (Inl err)
    with Cons.prems(2) show ?thesis by simp
  next
    case (Inr db1)
    with Cons.prems(2) have loop: "mirrorLoop user store d lr bs db1 = (None, db')" by simp
    from mirrorBinding_unique [OF Inr] Cons.prems(1) have u: "uniqueIds db1" by blast
    have "(\<exists>m\<in>set (t_leaveRequest db1). isMirrorOf user lr a d m) \<or>
          (a \<in> b_assistantId ` set bs \<and> \<not> hasActive db1 a d)"
    proof (cases "\<exists>m\<in>set (t_leaveRequest db). isMirrorOf user lr a d m")
      case True
      then obtain m where m: "m \<in> set (t_leaveRequest db)" "isMirrorOf user lr a d m" by blast
      then have "lr_status m = PENDING \<or> lr_status m = APPROVED" by (simp add: isMirrorOf_def)
      from mirrorBinding_keeps_active [OF Cons.prems(1) Inr m(1) this] m(2)
      show ?thesis by blast
    next
      case False
      with Cons.prems(3) have a: "a \<in> b_assistantId ` set (b # bs)" "\<not> hasActive db a d"
        by blast+
      show ?thesis
      proof (cases "b_assistantId b = a")
        case True
        with mirrorBinding_establishes [OF Inr] a(2) show ?thesis by blast
      next
        case False
        with a(1) have "a \<in> b_assistantId ` set bs" by auto
        with mirrorBinding_other_no_active [OF Cons.prems(1) Inr False a(2)]
        show ?thesis by blast
      qed
    qed
    from Cons.IH [OF u loop this] show ?thesis .
  qed
qed

lemma POST_write_other_no_active:
  assumes "uniqueIds db"
    and "POST_write user store d existingAny db = Inr (lr, db1)"
    and "\<And>e. existingAny = Some e \<Longrightarrow> e \<in> set (t_leaveRequest db) \<and> lr_userId e = u_id user"
    and "u_id user \<noteq> a" and "\<not> hasActive db a d"
  shows "\<not> hasActive db1 a d"
  using assms(2)
proof (cases rule: POST_write_cases)
  case (update e)
  from update(1) assms(3) have e: "e \<in> set (t_leaveRequest db)" "lr_userId e = u_id user"
    by simp_all
  show ?thesis unfolding update(4)
    using assms(1) e(1) _ _ assms(5)
  proof (rule update_other_no_active)
    from e(2) assms(4) show "lr_userId e \<noteq> a" by simp
  qed simp
next
  case create
  from create_other_no_active [OF create assms(4,5)] show ?thesis .
qed

lemma POST_write_tables:
  assumes "POST_write user store d existingAny db = Inr (lr, db1)"
  shows "t_binding db1 = t_binding db" and "t_config db1 = t_config db"
  using assms
  by (cases rule: POST_write_cases;
      simp add: leaveRequest_update_tables leaveRequest_create_Inr)+


section \<open>What a handler leaves as it is: supporting facts\<close>

lemma getStringConfig_tables:
  "t_config db1 = t_config db \<Longrightarrow> getStringConfig db1 s k f = getStringConfig db s k f"
  by (simp add: getStringConfig_def getConfigValue_def)

lemma POST_mirrors_designer:
  assumes "u_role user = DESIGNER"
    and "getStringConfig db (s_id store) ''binding_mirror_leave'' ''auto_create'' = ''auto_create''"
  shows "POST_mirrors user store d lr db =
         mirrorLoop user store d lr
           [b \<leftarrow> t_binding db. b_storeId b = s_id store \<and> b_designerId b = u_id user \<and> b_active b]
           db"
  using assms by (simp add: POST_mirrors_def)

lemma POST_leave_mirrors:
  assumes "uniqueIds db"
    and "POST_leave env db mockUserId (Some d) = (Inr lr, db')"
    and "getCurrentUser db mockUserId = Some user" and "u_role user = DESIGNER"
    and "getStringConfig db (u_storeId user) ''binding_mirror_leave'' ''auto_create'' =
         ''auto_create''"
    and "b \<in> set (t_binding db)" and "b_storeId b = u_storeId user"
    and "b_designerId b = u_id user" and "b_active b"
    and "b_assistantId b \<noteq> u_id user"
    and "\<not> hasActive db (b_assistantId b) d"
  shows "\<exists>m\<in>set (t_leaveRequest db'). isMirrorOf user lr (b_assistantId b) d m"
    and "lr \<in> set (t_leaveRequest db') \<and> lr_userId lr = u_id user \<and> lr_date lr = d \<and>
         lr_status lr = PENDING \<and> lr_source lr = SELF"
proof -
  from assms(2) obtain user' d' store db1 where
    u: "getCurrentUser db mockUserId = Some user'" and d: "Some d = Some d'"
    and s: "find (\<lambda>s. s_id s = u_storeId user') (t_store db) = Some store"
    and w: "POST_write user' store d'
       (find (\<lambda>r. lr_userId r = u_id user' \<and> lr_date r = d') (t_leaveRequest db)) db = Inr (lr, db1)"
    and m: "POST_mirrors user' store d' lr db1 = (None, db')"
    by (rule POST_leave_success)
  from u d assms(3) have eq: "user' = user" "d' = d" by simp_all
  note w = w [unfolded eq] and m = m [unfolded eq]
  from find_Some_set [OF s] eq have store: "s_id store = u_storeId user" by simp
  have ex: "e \<in> set (t_leaveRequest db) \<and> lr_userId e = u_id user \<and> lr_date e = d"
    if "find (\<lambda>r. lr_userId r = u_id user \<and> lr_date r = d) (t_leaveRequest db) = Some e" for e
    using find_Some_set [OF that] by simp
  from POST_write_unique [OF w] assms(1) have u1: "uniqueIds db1" by simp
  from assms(10) have neq: "u_id user \<noteq> b_assistantId b" by simp
  have ex': "e \<in> set (t_leaveRequest db) \<and> lr_userId e = u_id user"
    if "find (\<lambda>r. lr_userId r = u_id user \<and> lr_date r = d) (t_leaveRequest db) = Some e" for e
    using find_Some_set [OF that] by simp
  have noact: "\<not> hasActive db1 (b_assistantId b) d"
    by (rule POST_write_other_no_active [OF assms(1) w ex' neq assms(11)])
  note tabs = POST_write_tables [OF w]
  from assms(5) store
    getStringConfig_tables [OF tabs(2), of "s_id store" "''binding_mirror_leave''" "''auto_create''"]
  have pol: "getStringConfig db1 (s_id store) ''binding_mirror_leave'' ''auto_create'' = ''auto_create''"
    by simp
  from m POST_mirrors_designer [OF assms(4) pol]
  have loop: "mirrorLoop user store d lr
           [b \<leftarrow> t_binding db1. b_storeId b = s_id store \<and> b_designerId b = u_id user \<and> b_active b]
           db1 = (None, db')" by simp
  from assms(6-9) store tabs(1)
  have "b_assistantId b \<in> b_assistantId `
          set [b \<leftarrow> t_binding db1. b_storeId b = s_id store \<and> b_designerId b = u_id user \<and> b_active b]"
    by simp
  with noact have "(\<exists>m\<in>set (t_leaveRequest db1). isMirrorOf user lr (b_assistantId b) d m) \<or>
      (b_assistantId b \<in> b_assistantId `
          set [b \<leftarrow> t_binding db1. b_storeId b = s_id store \<and> b_designerId b = u_id user \<and> b_active b] \<and>
       \<not> hasActive db1 (b_assistantId b) d)" by (intro disjI2 conjI)
  from mirrorLoop_establishes [OF u1 loop this]
  show "\<exists>m\<in>set (t_leaveRequest db'). isMirrorOf user lr (b_assistantId b) d m" .
  from POST_write_returns [OF w ex]
  have lr: "lr \<in> set (t_leaveRequest db1)" "lr_userId lr = u_id user" "lr_date lr = d"
    "lr_status lr = PENDING" "lr_source lr = SELF" by simp_all
  from POST_mirrors_keeps_active [OF u1 m lr(1)] lr(4)
  have "lr \<in> set (t_leaveRequest db')" by simp
  with lr show "lr \<in> set (t_leaveRequest db') \<and> lr_userId lr = u_id user \<and> lr_date lr = d \<and>
         lr_status lr = PENDING \<and> lr_source lr = SELF" by simp
qed

lemma POST_leave_keeps_active:
  assumes "uniqueIds db" and "r \<in> set (t_leaveRequest db)"
    and "lr_status r = PENDING \<or> lr_status r = APPROVED"
  shows "r \<in> set (t_leaveRequest (snd (POST_leave env db mockUserId body)))"
proof -
  obtain res db' where eq: "POST_leave env db mockUserId body = (res, db')"
    by (cases "POST_leave env db mockUserId body")
  from POST_leave_steps [OF eq] have "r \<in> set (t_leaveRequest db')"
  proof (elim disjE exE conjE)
    assume "db' = db"
    with assms(2) show ?thesis by simp
  next
    fix user store d lr db1 r'
    assume w: "POST_write user store d
              (find (\<lambda>r. lr_userId r = u_id user \<and> lr_date r = d) (t_leaveRequest db)) db
              = Inr (lr, db1)"
      and m: "POST_mirrors user store d lr db1 = (r', db')"
    have "r \<in> set (t_leaveRequest db1)"
      using assms(1) w _ assms(2,3)
    proof (rule POST_write_keeps_active)
      fix e
      assume "find (\<lambda>r. lr_userId r = u_id user \<and> lr_date r = d) (t_leaveRequest db) = Some e"
      from find_Some_set [OF this] show "e \<in> set (t_leaveRequest db)" by simp
    qed
    moreover from POST_write_unique [OF w] assms(1) have "uniqueIds db1" by simp
    ultimately show ?thesis using POST_mirrors_keeps_active [OF _ m _ assms(3)] by blast
  qed
  with eq show ?thesis by simp
qed








section \<open>Remaining quota and the users that count\<close>




section \<open>The reason QUOTA_FULL\<close>

text \<open>
  Claim C2. For every day of the computed month, the reason QUOTA_FULL is listed exactly
  when the remaining quota is below zero. For a designer the reason is advisory: the day
  is selectable exactly when no reason other than QUOTA_FULL is listed, and the value of
  \<^verbatim>\<open>selectable\<close> is the one the body computes from any other quota. For an assistant or
  a rookie a listed QUOTA_FULL makes the day not selectable.
\<close>

theorem quota_full_sign_and_effect:
  "\<forall>day\<in>set (days (getMonthAvailability env db storeId tz mon rq)).
     ((''QUOTA_FULL'' \<in> set (reasons day)) = (remainingQuota day < 0)) \<and>
     (r_role rq = DESIGNER \<longrightarrow>
        selectable day = list_all (\<lambda>r. r = ''QUOTA_FULL'') (reasons day) \<and>
        (\<forall>q. selectable day = fst (verdict env db storeId tz mon rq (date day) q))) \<and>
     (r_role rq = ASSISTANT \<or> r_role rq = ROOKIE \<longrightarrow>
        ''QUOTA_FULL'' \<in> set (reasons day) \<longrightarrow> \<not> selectable day)"
proof
  fix day
  assume "day \<in> set (days (getMonthAvailability env db storeId tz mon rq))"
  then obtain d where day: "day = availabilityDay env db storeId tz mon rq d"
    using day_in_days by blast
  have sign: "(''QUOTA_FULL'' \<in> set (reasons day)) = (remainingQuota day < 0)"
    unfolding day availabilityDay_fields by (rule verdict_quota_full)
  have designer: "selectable day = list_all (\<lambda>r. r = ''QUOTA_FULL'') (reasons day) \<and>
        (\<forall>q. selectable day = fst (verdict env db storeId tz mon rq (date day) q))"
    if "r_role rq = DESIGNER"
    unfolding day availabilityDay_fields
    using verdict_designer_reasons [OF that] verdict_designer [OF that] by simp
  have other: "\<not> selectable day"
    if "r_role rq = ASSISTANT \<or> r_role rq = ROOKIE" and "''QUOTA_FULL'' \<in> set (reasons day)"
  proof -
    from that(1) have "r_role rq \<noteq> DESIGNER" by auto
    moreover from that(2) sign have "remainingQuota day < 0" by simp
    ultimately show ?thesis
      unfolding day availabilityDay_fields by (rule verdict_quota_blocks)
  qed
  from sign designer other
  show "((''QUOTA_FULL'' \<in> set (reasons day)) = (remainingQuota day < 0)) \<and>
     (r_role rq = DESIGNER \<longrightarrow>
        selectable day = list_all (\<lambda>r. r = ''QUOTA_FULL'') (reasons day) \<and>
        (\<forall>q. selectable day = fst (verdict env db storeId tz mon rq (date day) q))) \<and>
     (r_role rq = ASSISTANT \<or> r_role rq = ROOKIE \<longrightarrow>
        ''QUOTA_FULL'' \<in> set (reasons day) \<longrightarrow> \<not> selectable day)"
    by blast
qed

text \<open>
  On 6 February of the example salon the remaining quota is \<open>-0.2\<close>. The designer
  \<open>d1\<close>, asking on the third, sees QUOTA_FULL and may select the day; the rookie
  \<open>r1\<close>, asking on the tenth, sees QUOTA_FULL and may not.
\<close>

theorem quota_full_sign_and_effect_witness:
  "(let day = availabilityDay exEnv3 exDb ''s1'' ''Asia/Taipei'' ''2026-02''
                (exRequester ''d1'' DESIGNER) 6;
        day' = availabilityDay exEnv10 exDb ''s1'' ''Asia/Taipei'' ''2026-02''
                (exRequester ''r1'' ROOKIE) 6
    in day \<in> set (days (getMonthAvailability exEnv3 exDb ''s1'' ''Asia/Taipei'' ''2026-02''
                          (exRequester ''d1'' DESIGNER))) \<and>
       day' \<in> set (days (getMonthAvailability exEnv10 exDb ''s1'' ''Asia/Taipei'' ''2026-02''
                          (exRequester ''r1'' ROOKIE))) \<and>
       remainingQuota day < 0 \<and> ''QUOTA_FULL'' \<in> set (reasons day) \<and> selectable day \<and>
       remainingQuota day' < 0 \<and> ''QUOTA_FULL'' \<in> set (reasons day') \<and> \<not> selectable day')"
proof -
  have dim: "6 \<le> daysInMonth ''2026-02''" by code_simp
  define day where "day = availabilityDay exEnv3 exDb ''s1'' ''Asia/Taipei'' ''2026-02''
                (exRequester ''d1'' DESIGNER) 6"
  define day' where "day' = availabilityDay exEnv10 exDb ''s1'' ''Asia/Taipei'' ''2026-02''
                (exRequester ''r1'' ROOKIE) 6"
  have mem: "day \<in> set (days (getMonthAvailability exEnv3 exDb ''s1'' ''Asia/Taipei'' ''2026-02''
                          (exRequester ''d1'' DESIGNER)))"
    unfolding day_def using dim by (intro availabilityDay_in_days) simp_all
  have mem': "day' \<in> set (days (getMonthAvailability exEnv10 exDb ''s1'' ''Asia/Taipei'' ''2026-02''
                          (exRequester ''r1'' ROOKIE)))"
    unfolding day'_def using dim by (intro availabilityDay_in_days) simp_all
  have neg: "remainingQuota day < 0" unfolding day_def by code_simp
  have neg': "remainingQuota day' < 0" unfolding day'_def by code_simp
  have sel: "selectable day" unfolding day_def by code_simp
  have role': "r_role (exRequester ''r1'' ROOKIE) = ROOKIE" by (simp add: exRequester_def)
  from quota_full_sign_and_effect [of exEnv3 exDb "''s1''" "''Asia/Taipei''" "''2026-02''"
      "exRequester ''d1'' DESIGNER"] mem neg
  have full: "''QUOTA_FULL'' \<in> set (reasons day)" by blast
  from quota_full_sign_and_effect [of exEnv10 exDb "''s1''" "''Asia/Taipei''" "''2026-02''"
      "exRequester ''r1'' ROOKIE"] mem' neg' role'
  have "''QUOTA_FULL'' \<in> set (reasons day') \<and> \<not> selectable day'" by blast
  with mem mem' neg neg' sel full show ?thesis
    unfolding day_def [symmetric] day'_def [symmetric] Let_def by simp
qed


section \<open>Phase gating\<close>

text \<open>
  Claim C3. Phase gating looks at today's day of the month in the store's time zone and
  not at the day asked for, so its verdict is the same for every day of the month: the
  reason PHASE_LOCK is listed exactly when the requester is outside the window of the
  role (phase 1 or phase 2 for a designer, phase 2 for an assistant or a rookie), and
  a day that lists it is not selectable. A leave request that the leave route accepts
  was made inside the window of the requester's role.
\<close>

theorem phase_gating:
  "(\<forall>day\<in>set (days (getMonthAvailability env db storeId tz mon rq)).
      ((''PHASE_LOCK'' \<in> set (reasons day)) = (\<not> mayRequest env db storeId tz (r_role rq))) \<and>
      (''PHASE_LOCK'' \<in> set (reasons day) \<longrightarrow> \<not> selectable day)) \<and>
   (\<forall>user store lr db'.
      getCurrentUser db mockUserId = Some user \<and>
      find (\<lambda>s. s_id s = u_storeId user) (t_store db) = Some store \<and>
      POST_leave env db mockUserId body = (Inr lr, db') \<longrightarrow>
      mayRequest env db (s_id store) (s_timezone store) (u_role user))"
proof (intro conjI ballI allI impI)
  fix day
  assume "day \<in> set (days (getMonthAvailability env db storeId tz mon rq))"
  then obtain d where day: "day = availabilityDay env db storeId tz mon rq d"
    using day_in_days by blast
  show "(''PHASE_LOCK'' \<in> set (reasons day)) = (\<not> mayRequest env db storeId tz (r_role rq))"
    unfolding day availabilityDay_fields by (rule verdict_phase_lock_mayRequest)
  show "\<not> selectable day" if "''PHASE_LOCK'' \<in> set (reasons day)"
    using that unfolding day availabilityDay_fields by (rule verdict_phase_lock_blocks)
next
  fix user store lr db'
  assume a: "getCurrentUser db mockUserId = Some user \<and>
      find (\<lambda>s. s_id s = u_storeId user) (t_store db) = Some store \<and>
      POST_leave env db mockUserId body = (Inr lr, db')"
  then have post: "POST_leave env db mockUserId body = (Inr lr, db')" by simp
  from post obtain user' d store' day where
    u: "getCurrentUser db mockUserId = Some user'"
    and s: "find (\<lambda>s. s_id s = u_storeId user') (t_store db) = Some store'"
    and f: "find (\<lambda>day. date day = d)
       (days (getMonthAvailability env db (s_id store') (s_timezone store') (take 7 d)
          \<lparr>r_userId = u_id user', r_role = u_role user'\<rparr>)) = Some day"
    and sel: "selectable day"
    by (rule POST_leave_success)
  from a u s have eq: "user' = user" "store' = store" by simp_all
  from f have mem: "day \<in> set (days (getMonthAvailability env db (s_id store) (s_timezone store)
          (take 7 d) \<lparr>r_userId = u_id user, r_role = u_role user\<rparr>))"
    unfolding eq by (auto simp: find_Some_iff in_set_conv_nth)
  then obtain n where day: "day = availabilityDay env db (s_id store) (s_timezone store)
          (take 7 d) \<lparr>r_userId = u_id user, r_role = u_role user\<rparr> n"
    using day_in_days by blast
  from sel have "''PHASE_LOCK'' \<notin> set (reasons day)"
    unfolding day availabilityDay_fields using verdict_phase_lock_blocks by blast
  then show "mayRequest env db (s_id store) (s_timezone store) (u_role user)"
    unfolding day availabilityDay_fields verdict_phase_lock_mayRequest by simp
qed

text \<open>
  The example of the specification: phase 1 from 1 to 5, phase 2 from 6, today the third.
  The assistant \<open>a2\<close> sees PHASE_LOCK, the designer \<open>d1\<close> does not, and the route
  accepts the designer's request for 5 February.
\<close>

theorem phase_gating_witness:
  "(let day = availabilityDay exEnv3 exDb ''s1'' ''Asia/Taipei'' ''2026-02''
                (exRequester ''a2'' ASSISTANT) 1;
        day' = availabilityDay exEnv3 exDb ''s1'' ''Asia/Taipei'' ''2026-02''
                (exRequester ''d1'' DESIGNER) 1
    in day \<in> set (days (getMonthAvailability exEnv3 exDb ''s1'' ''Asia/Taipei'' ''2026-02''
                          (exRequester ''a2'' ASSISTANT))) \<and>
       \<not> mayRequest exEnv3 exDb ''s1'' ''Asia/Taipei'' ASSISTANT \<and>
       ''PHASE_LOCK'' \<in> set (reasons day) \<and> \<not> selectable day \<and>
       day' \<in> set (days (getMonthAvailability exEnv3 exDb ''s1'' ''Asia/Taipei'' ''2026-02''
                          (exRequester ''d1'' DESIGNER))) \<and>
       ''PHASE_LOCK'' \<notin> set (reasons day')) \<and>
   (\<exists>lr db'. POST_leave exEnv3 exDb (Some ''d1'') (Some ''2026-02-05'') = (Inr lr, db')) \<and>
   mayRequest exEnv3 exDb ''s1'' ''Asia/Taipei'' DESIGNER"
proof -
  have dim: "1 \<le> daysInMonth ''2026-02''" by code_simp
  define day where "day = availabilityDay exEnv3 exDb ''s1'' ''Asia/Taipei'' ''2026-02''
                (exRequester ''a2'' ASSISTANT) 1"
  define day' where "day' = availabilityDay exEnv3 exDb ''s1'' ''Asia/Taipei'' ''2026-02''
                (exRequester ''d1'' DESIGNER) 1"
  have mem: "day \<in> set (days (getMonthAvailability exEnv3 exDb ''s1'' ''Asia/Taipei'' ''2026-02''
                          (exRequester ''a2'' ASSISTANT)))"
    unfolding day_def using dim by (intro availabilityDay_in_days) simp_all
  have mem': "day' \<in> set (days (getMonthAvailability exEnv3 exDb ''s1'' ''Asia/Taipei'' ''2026-02''
                          (exRequester ''d1'' DESIGNER)))"
    unfolding day'_def using dim by (intro availabilityDay_in_days) simp_all
  have out: "\<not> mayRequest exEnv3 exDb ''s1'' ''Asia/Taipei'' (r_role (exRequester ''a2'' ASSISTANT))"
    by code_simp
  have inn: "mayRequest exEnv3 exDb ''s1'' ''Asia/Taipei'' (r_role (exRequester ''d1'' DESIGNER))"
    by code_simp
  have roles: "r_role (exRequester ''a2'' ASSISTANT) = ASSISTANT"
    "r_role (exRequester ''d1'' DESIGNER) = DESIGNER"
    by (simp_all add: exRequester_def)
  from phase_gating [of exEnv3 exDb "''s1''" "''Asia/Taipei''" "''2026-02''"
      "exRequester ''a2'' ASSISTANT"] mem out
  have locked: "''PHASE_LOCK'' \<in> set (reasons day) \<and> \<not> selectable day" by blast
  from phase_gating [of exEnv3 exDb "''s1''" "''Asia/Taipei''" "''2026-02''"
      "exRequester ''d1'' DESIGNER"] mem' inn
  have free: "''PHASE_LOCK'' \<notin> set (reasons day')" by blast
  have user: "getCurrentUser exDb (Some ''d1'') = Some (exUser ''d1'' DESIGNER None)"
    by code_simp
  have store: "find (\<lambda>s. s_id s = u_storeId (exUser ''d1'' DESIGNER None)) (t_store exDb) =
                 Some \<lparr>s_id = ''s1'', s_timezone = ''Asia/Taipei''\<rparr>"
    by code_simp
  have "fst (POST_leave exEnv3 exDb (Some ''d1'') (Some ''2026-02-05'')) =
          Inr \<lparr>lr_id = 4, lr_storeId = ''s1'', lr_userId = ''d1'', lr_date = ''2026-02-05'',
               lr_status = PENDING, lr_source = SELF, lr_createdByUserId = Some ''d1'',
               lr_linkedToId = None\<rparr>"
    by code_simp
  then have post: "POST_leave exEnv3 exDb (Some ''d1'') (Some ''2026-02-05'') =
          (Inr \<lparr>lr_id = 4, lr_storeId = ''s1'', lr_userId = ''d1'', lr_date = ''2026-02-05'',
               lr_status = PENDING, lr_source = SELF, lr_createdByUserId = Some ''d1'',
               lr_linkedToId = None\<rparr>,
           snd (POST_leave exEnv3 exDb (Some ''d1'') (Some ''2026-02-05'')))"
    by (metis prod.collapse)
  from phase_gating [of exEnv3 exDb "''s1''" "''Asia/Taipei''" "''2026-02''"
      "exRequester ''d1'' DESIGNER" "Some ''d1''" "Some ''2026-02-05''"] user store post
  have "mayRequest exEnv3 exDb (s_id \<lparr>s_id = ''s1'', s_timezone = ''Asia/Taipei''\<rparr>)
          (s_timezone \<lparr>s_id = ''s1'', s_timezone = ''Asia/Taipei''\<rparr>)
          (u_role (exUser ''d1'' DESIGNER None))"
    by blast
  then have may: "mayRequest exEnv3 exDb ''s1'' ''Asia/Taipei'' DESIGNER"
    by (simp add: exUser_def)
  from post have ex: "\<exists>lr db'. POST_leave exEnv3 exDb (Some ''d1'') (Some ''2026-02-05'') = (Inr lr, db')"
    by blast
  from mem mem' out locked free ex may roles show ?thesis
    unfolding day_def [symmetric] day'_def [symmetric] Let_def by simp
qed


section \<open>Mirrors of a designer's request\<close>

text \<open>
  Claim C4, as amended. When the leave route accepts a designer's request for a date and
  \<^verbatim>\<open>binding_mirror_leave\<close> is \<^verbatim>\<open>auto_create\<close>, then for every active binding of that
  designer in the designer's store whose assistant has no PENDING or APPROVED record for
  the date, the assistant has afterwards a PENDING record for the date with source
  BINDING_MIRROR, linked to the designer's request and created by the designer. The
  designer's own request is PENDING with source SELF, and every record that was PENDING
  or APPROVED before, in particular that of an assistant who is skipped, is unchanged.
  The ids of the table are distinct and below the counter (the primary key), and the
  assistant of the binding is not the designer.
\<close>

theorem designer_request_mirrors:
  assumes "uniqueIds db"
    and "POST_leave env db mockUserId (Some d) = (Inr lr, db')"
    and "getCurrentUser db mockUserId = Some user" and "u_role user = DESIGNER"
    and "getStringConfig db (u_storeId user) ''binding_mirror_leave'' ''auto_create'' =
         ''auto_create''"
    and "b \<in> set (t_binding db)" and "b_storeId b = u_storeId user"
    and "b_designerId b = u_id user" and "b_active b"
    and "b_assistantId b \<noteq> u_id user"
    and "\<not> hasActive db (b_assistantId b) d"
  shows "(\<exists>m\<in>set (t_leaveRequest db').
            lr_userId m = b_assistantId b \<and> lr_date m = d \<and> lr_status m = PENDING \<and>
            lr_source m = BINDING_MIRROR \<and> lr_linkedToId m = Some (lr_id lr) \<and>
            lr_createdByUserId m = Some (u_id user)) \<and>
         lr \<in> set (t_leaveRequest db') \<and> lr_userId lr = u_id user \<and> lr_date lr = d \<and>
         lr_status lr = PENDING \<and> lr_source lr = SELF \<and>
         (\<forall>r\<in>set (t_leaveRequest db).
            lr_status r = PENDING \<or> lr_status r = APPROVED \<longrightarrow> r \<in> set (t_leaveRequest db'))"
proof -
  from POST_leave_mirrors(1) [OF assms]
  have mirror: "\<exists>m\<in>set (t_leaveRequest db').
            lr_userId m = b_assistantId b \<and> lr_date m = d \<and> lr_status m = PENDING \<and>
            lr_source m = BINDING_MIRROR \<and> lr_linkedToId m = Some (lr_id lr) \<and>
            lr_createdByUserId m = Some (u_id user)"
    by (simp add: isMirrorOf_def)
  note own = POST_leave_mirrors(2) [OF assms]
  have kept: "r \<in> set (t_leaveRequest db')"
    if "r \<in> set (t_leaveRequest db)" "lr_status r = PENDING \<or> lr_status r = APPROVED" for r
    using POST_leave_keeps_active [OF assms(1) that, of env mockUserId "Some d"] assms(2)
    by simp
  from mirror own kept show ?thesis by blast
qed

text \<open>
  In the example salon the designer \<open>d1\<close> asks on the third for leave on 5 February;
  the bound assistant \<open>a1\<close> has no record for that date and receives the mirror 5,
  linked to the request 4.
\<close>

theorem designer_request_mirrors_witness:
  "uniqueIds exDb \<and>
   getCurrentUser exDb (Some ''d1'') = Some (exUser ''d1'' DESIGNER None) \<and>
   getStringConfig exDb ''s1'' ''binding_mirror_leave'' ''auto_create'' = ''auto_create'' \<and>
   t_binding exDb = [\<lparr>b_storeId = ''s1'', b_assistantId = ''a1'', b_designerId = ''d1'',
                      b_active = True\<rparr>] \<and>
   \<not> hasActive exDb ''a1'' ''2026-02-05'' \<and>
   fst (POST_leave exEnv3 exDb (Some ''d1'') (Some ''2026-02-05'')) =
     Inr \<lparr>lr_id = 4, lr_storeId = ''s1'', lr_userId = ''d1'', lr_date = ''2026-02-05'',
          lr_status = PENDING, lr_source = SELF, lr_createdByUserId = Some ''d1'',
          lr_linkedToId = None\<rparr> \<and>
   list_ex (\<lambda>m. lr_userId m = ''a1'' \<and> lr_date m = ''2026-02-05'' \<and> lr_status m = PENDING \<and>
                 lr_source m = BINDING_MIRROR \<and> lr_linkedToId m = Some 4 \<and>
                 lr_createdByUserId m = Some ''d1'') (t_leaveRequest exDbMirror)"
proof -
  define lr where "lr = \<lparr>lr_id = 4, lr_storeId = ''s1'', lr_userId = ''d1'',
          lr_date = ''2026-02-05'', lr_status = PENDING, lr_source = SELF,
          lr_createdByUserId = Some ''d1'', lr_linkedToId = None\<rparr>"
  define b where "b = \<lparr>b_storeId = ''s1'', b_assistantId = ''a1'', b_designerId = ''d1'',
                      b_active = True\<rparr>"
  have h1: "uniqueIds exDb" by code_simp
  have fst: "fst (POST_leave exEnv3 exDb (Some ''d1'') (Some ''2026-02-05'')) = Inr lr"
    unfolding lr_def by code_simp
  then have h2: "POST_leave exEnv3 exDb (Some ''d1'') (Some ''2026-02-05'') = (Inr lr, exDbMirror)"
    unfolding exDbMirror_def by (metis prod.collapse)
  have h3: "getCurrentUser exDb (Some ''d1'') = Some (exUser ''d1'' DESIGNER None)"
    by code_simp
  have h4: "u_role (exUser ''d1'' DESIGNER None) = DESIGNER" by (simp add: exUser_def)
  have pol: "getStringConfig exDb ''s1'' ''binding_mirror_leave'' ''auto_create'' = ''auto_create''"
    by code_simp
  then have h5: "getStringConfig exDb (u_storeId (exUser ''d1'' DESIGNER None))
          ''binding_mirror_leave'' ''auto_create'' = ''auto_create''"
    by (simp add: exUser_def)
  have bs: "t_binding exDb = [b]" by (simp add: exDb_def b_def)
  then have h6: "b \<in> set (t_binding exDb)" by simp
  have h7: "b_storeId b = u_storeId (exUser ''d1'' DESIGNER None)"
    and h8: "b_designerId b = u_id (exUser ''d1'' DESIGNER None)"
    and h9: "b_active b"
    and h10: "b_assistantId b \<noteq> u_id (exUser ''d1'' DESIGNER None)"
    by (simp_all add: b_def exUser_def)
  have na: "\<not> hasActive exDb ''a1'' ''2026-02-05''" by code_simp
  then have h11: "\<not> hasActive exDb (b_assistantId b) ''2026-02-05''" by (simp add: b_def)
  from designer_request_mirrors [OF h1 h2 h3 h4 h5 h6 h7 h8 h9 h10 h11]
  have "\<exists>m\<in>set (t_leaveRequest exDbMirror).
            lr_userId m = b_assistantId b \<and> lr_date m = ''2026-02-05'' \<and> lr_status m = PENDING \<and>
            lr_source m = BINDING_MIRROR \<and> lr_linkedToId m = Some (lr_id lr) \<and>
            lr_createdByUserId m = Some (u_id (exUser ''d1'' DESIGNER None))"
    by blast
  then have mirror: "list_ex (\<lambda>m. lr_userId m = ''a1'' \<and> lr_date m = ''2026-02-05'' \<and>
                 lr_status m = PENDING \<and> lr_source m = BINDING_MIRROR \<and>
                 lr_linkedToId m = Some 4 \<and> lr_createdByUserId m = Some ''d1'')
               (t_leaveRequest exDbMirror)"
    by (simp add: list_ex_iff b_def lr_def exUser_def)
  from h1 h3 pol bs na fst mirror show ?thesis
    unfolding lr_def b_def by simp
qed

text \<open>
  The claim as it was stated fails where the assistant already has an active record: the
  loop over the bindings skips that assistant. In the example salon the assistant \<open>a1\<close>
  has the PENDING request 2 for 6 February. The designer \<open>d1\<close>, bound to \<open>a1\<close>, asks for
  that date; the request is accepted as record 4, and afterwards no record of \<open>a1\<close> has
  the source BINDING_MIRROR or a link to it.
\<close>

theorem designer_request_mirrors_counterexample:
  "getCurrentUser exDb (Some ''d1'') = Some (exUser ''d1'' DESIGNER None) \<and>
   getStringConfig exDb ''s1'' ''binding_mirror_leave'' ''auto_create'' = ''auto_create'' \<and>
   t_binding exDb = [\<lparr>b_storeId = ''s1'', b_assistantId = ''a1'', b_designerId = ''d1'',
                      b_active = True\<rparr>] \<and>
   fst (POST_leave exEnv3 exDb (Some ''d1'') (Some ''2026-02-06'')) =
     Inr \<lparr>lr_id = 4, lr_storeId = ''s1'', lr_userId = ''d1'', lr_date = ''2026-02-06'',
          lr_status = PENDING, lr_source = SELF, lr_createdByUserId = Some ''d1'',
          lr_linkedToId = None\<rparr> \<and>
   map (\<lambda>r. (lr_id r, lr_userId r, lr_date r, lr_status r, lr_source r, lr_linkedToId r))
     (t_leaveRequest (snd (POST_leave exEnv3 exDb (Some ''d1'') (Some ''2026-02-06'')))) =
     [(0, ''a2'', ''2026-02-05'', PENDING, SELF, None),
      (1, ''d2'', ''2026-02-05'', APPROVED, SELF, None),
      (2, ''a1'', ''2026-02-06'', PENDING, SELF, None),
      (3, ''r1'', ''2026-02-07'', CANCELED, SELF, None),
      (4, ''d1'', ''2026-02-06'', PENDING, SELF, None)] \<and>
   \<not> list_ex (\<lambda>m. lr_userId m = ''a1'' \<and>
                   (lr_source m = BINDING_MIRROR \<or> lr_linkedToId m = Some 4))
       (t_leaveRequest (snd (POST_leave exEnv3 exDb (Some ''d1'') (Some ''2026-02-06''))))"
proof -
  have a: "getCurrentUser exDb (Some ''d1'') = Some (exUser ''d1'' DESIGNER None)"
    by code_simp
  have b: "getStringConfig exDb ''s1'' ''binding_mirror_leave'' ''auto_create'' = ''auto_create''"
    by code_simp
  have c: "t_binding exDb = [\<lparr>b_storeId = ''s1'', b_assistantId = ''a1'', b_designerId = ''d1'',
                      b_active = True\<rparr>]"
    by (simp add: exDb_def)
  have d: "fst (POST_leave exEnv3 exDb (Some ''d1'') (Some ''2026-02-06'')) =
     Inr \<lparr>lr_id = 4, lr_storeId = ''s1'', lr_userId = ''d1'', lr_date = ''2026-02-06'',
          lr_status = PENDING, lr_source = SELF, lr_createdByUserId = Some ''d1'',
          lr_linkedToId = None\<rparr>"
    by code_simp
  have e: "map (\<lambda>r. (lr_id r, lr_userId r, lr_date r, lr_status r, lr_source r, lr_linkedToId r))
     (t_leaveRequest (snd (POST_leave exEnv3 exDb (Some ''d1'') (Some ''2026-02-06'')))) =
     [(0, ''a2'', ''2026-02-05'', PENDING, SELF, None),
      (1, ''d2'', ''2026-02-05'', APPROVED, SELF, None),
      (2, ''a1'', ''2026-02-06'', PENDING, SELF, None),
      (3, ''r1'', ''2026-02-07'', CANCELED, SELF, None),
      (4, ''d1'', ''2026-02-06'', PENDING, SELF, None)]"
    by code_simp
  have f: "\<not> list_ex (\<lambda>m. lr_userId m = ''a1'' \<and>
                   (lr_source m = BINDING_MIRROR \<or> lr_linkedToId m = Some 4))
       (t_leaveRequest (snd (POST_leave exEnv3 exDb (Some ''d1'') (Some ''2026-02-06''))))"
    by code_simp
  from a b c d e f show ?thesis by simp
qed


section \<open>Which statuses are final\<close>





section \<open>Approval and rejection cascade to the mirrors\<close>




section \<open>Cancelling cascades to the requester's own mirrors only\<close>

text \<open>
  Claim C7. When a user cancels the PENDING leave request that the user created for a
  date, the transaction sets to CANCELED that request and the requests of the user's
  store that are linked to it, are PENDING and were created by the same user; every
  other leave request stays as it is, in particular every request that another user
  created. Where all requests linked to the cancelled one lie in the user's store, as
  the mirrors that the leave route creates do, these are exactly the linked PENDING
  requests that the user created.
\<close>

theorem cancel_cascade:
  assumes "getCurrentUser db mockUserId = Some user" and "isIsoDate d"
    and "find (\<lambda>r. lr_storeId r = u_storeId user \<and> lr_userId r = u_id user \<and> lr_date r = d \<and>
                    (lr_status r = PENDING \<or> lr_status r = APPROVED)) (t_leaveRequest db) =
         Some existing"
    and "lr_createdByUserId existing = Some (u_id user)" and "lr_status existing = PENDING"
  shows "fst (DELETE_leave db mockUserId (Some d)) = Inr () \<and>
         t_leaveRequest (snd (DELETE_leave db mockUserId (Some d))) =
           map (\<lambda>r. if lr_id r = lr_id existing \<or>
                        (lr_storeId r = u_storeId user \<and>
                         lr_linkedToId r = Some (lr_id existing) \<and> lr_status r = PENDING \<and>
                         lr_createdByUserId r = Some (u_id user))
                     then r\<lparr>lr_status := CANCELED\<rparr> else r) (t_leaveRequest db) \<and>
         (list_all (\<lambda>r. lr_linkedToId r = Some (lr_id existing) \<longrightarrow>
                         lr_storeId r = u_storeId user) (t_leaveRequest db) \<longrightarrow>
          t_leaveRequest (snd (DELETE_leave db mockUserId (Some d))) =
            map (\<lambda>r. if lr_id r = lr_id existing \<or>
                         (lr_linkedToId r = Some (lr_id existing) \<and> lr_status r = PENDING \<and>
                          lr_createdByUserId r = Some (u_id user))
                      then r\<lparr>lr_status := CANCELED\<rparr> else r) (t_leaveRequest db)) \<and>
         (\<forall>r\<in>set (t_leaveRequest db).
            lr_id r \<noteq> lr_id existing \<and> lr_createdByUserId r \<noteq> Some (u_id user) \<longrightarrow>
            r \<in> set (t_leaveRequest (snd (DELETE_leave db mockUserId (Some d)))))"
proof -
  from assms(2) have len: "\<not> length d < 1" by (simp add: isIsoDate_def)
  have res: "DELETE_leave db mockUserId (Some d) =
        (Inr (),
         leaveRequest_updateMany
           (\<lambda>r. lr_storeId r = u_storeId user \<and> lr_linkedToId r = Some (lr_id existing) \<and>
                 lr_status r = PENDING \<and> lr_createdByUserId r = Some (u_id user))
           (\<lambda>r. r\<lparr>lr_status := CANCELED\<rparr>)
           (leaveRequest_update (lr_id existing) (\<lambda>r. r\<lparr>lr_status := CANCELED\<rparr>) db))"
    unfolding DELETE_leave_def Let_def using assms len by simp
  have rows: "t_leaveRequest (snd (DELETE_leave db mockUserId (Some d))) =
           map (\<lambda>r. if lr_id r = lr_id existing \<or>
                        (lr_storeId r = u_storeId user \<and>
                         lr_linkedToId r = Some (lr_id existing) \<and> lr_status r = PENDING \<and>
                         lr_createdByUserId r = Some (u_id user))
                     then r\<lparr>lr_status := CANCELED\<rparr> else r) (t_leaveRequest db)"
    unfolding res
    by (simp add: leaveRequest_update_tables leaveRequest_updateMany_tables)
  have store: "t_leaveRequest (snd (DELETE_leave db mockUserId (Some d))) =
            map (\<lambda>r. if lr_id r = lr_id existing \<or>
                         (lr_linkedToId r = Some (lr_id existing) \<and> lr_status r = PENDING \<and>
                          lr_createdByUserId r = Some (u_id user))
                      then r\<lparr>lr_status := CANCELED\<rparr> else r) (t_leaveRequest db)"
    if "list_all (\<lambda>r. lr_linkedToId r = Some (lr_id existing) \<longrightarrow>
                         lr_storeId r = u_storeId user) (t_leaveRequest db)"
    unfolding rows using that by (intro map_cong) (auto simp: list_all_iff)
  have frame: "r \<in> set (t_leaveRequest (snd (DELETE_leave db mockUserId (Some d))))"
    if "r \<in> set (t_leaveRequest db)" "lr_id r \<noteq> lr_id existing"
       "lr_createdByUserId r \<noteq> Some (u_id user)" for r
    unfolding rows using that by (auto simp: image_iff intro!: bexI [of _ r])
  from res rows store frame show ?thesis by simp
qed

text \<open>
  The designer \<open>d1\<close> of the example cancels the request 4: it and its mirror 5 become
  CANCELED; the request 0, which the assistant \<open>a2\<close> made for the same date, stays
  PENDING.
\<close>

theorem cancel_cascade_witness:
  "getCurrentUser exDbMirror (Some ''d1'') = Some (exUser ''d1'' DESIGNER None) \<and>
   isIsoDate ''2026-02-05'' \<and>
   map (\<lambda>r. (lr_id r, lr_userId r, lr_date r, lr_status r)) (t_leaveRequest exDbMirror) =
     [(0, ''a2'', ''2026-02-05'', PENDING), (1, ''d2'', ''2026-02-05'', APPROVED),
      (2, ''a1'', ''2026-02-06'', PENDING), (3, ''r1'', ''2026-02-07'', CANCELED),
      (4, ''d1'', ''2026-02-05'', PENDING), (5, ''a1'', ''2026-02-05'', PENDING)] \<and>
   fst (DELETE_leave exDbMirror (Some ''d1'') (Some ''2026-02-05'')) = Inr () \<and>
   map (\<lambda>r. (lr_id r, lr_userId r, lr_date r, lr_status r))
     (t_leaveRequest (snd (DELETE_leave exDbMirror (Some ''d1'') (Some ''2026-02-05'')))) =
     [(0, ''a2'', ''2026-02-05'', PENDING), (1, ''d2'', ''2026-02-05'', APPROVED),
      (2, ''a1'', ''2026-02-06'', PENDING), (3, ''r1'', ''2026-02-07'', CANCELED),
      (4, ''d1'', ''2026-02-05'', CANCELED), (5, ''a1'', ''2026-02-05'', CANCELED)]"
proof -
  have h1: "getCurrentUser exDbMirror (Some ''d1'') = Some (exUser ''d1'' DESIGNER None)"
    by code_simp
  have h2: "isIsoDate ''2026-02-05''" by code_simp
  define existing where "existing =
     \<lparr>lr_id = 4, lr_storeId = ''s1'', lr_userId = ''d1'', lr_date = ''2026-02-05'',
      lr_status = PENDING, lr_source = SELF, lr_createdByUserId = Some ''d1'',
      lr_linkedToId = None\<rparr>"
  have h3: "find (\<lambda>r. lr_storeId r = u_storeId (exUser ''d1'' DESIGNER None) \<and>
                      lr_userId r = u_id (exUser ''d1'' DESIGNER None) \<and>
                      lr_date r = ''2026-02-05'' \<and>
                      (lr_status r = PENDING \<or> lr_status r = APPROVED))
              (t_leaveRequest exDbMirror) = Some existing"
    unfolding existing_def by code_simp
  have h4: "lr_createdByUserId existing = Some (u_id (exUser ''d1'' DESIGNER None))"
    by (simp add: existing_def exUser_def)
  have h5: "lr_status existing = PENDING" by (simp add: existing_def)
  have before: "map (\<lambda>r. (lr_id r, lr_userId r, lr_date r, lr_status r)) (t_leaveRequest exDbMirror) =
     [(0, ''a2'', ''2026-02-05'', PENDING), (1, ''d2'', ''2026-02-05'', APPROVED),
      (2, ''a1'', ''2026-02-06'', PENDING), (3, ''r1'', ''2026-02-07'', CANCELED),
      (4, ''d1'', ''2026-02-05'', PENDING), (5, ''a1'', ''2026-02-05'', PENDING)]"
    by code_simp
  have after: "map (\<lambda>r. (lr_id r, lr_userId r, lr_date r, lr_status r))
     (t_leaveRequest (snd (DELETE_leave exDbMirror (Some ''d1'') (Some ''2026-02-05'')))) =
     [(0, ''a2'', ''2026-02-05'', PENDING), (1, ''d2'', ''2026-02-05'', APPROVED),
      (2, ''a1'', ''2026-02-06'', PENDING), (3, ''r1'', ''2026-02-07'', CANCELED),
      (4, ''d1'', ''2026-02-05'', CANCELED), (5, ''a1'', ''2026-02-05'', CANCELED)]"
    by code_simp
  from cancel_cascade [OF h1 h2 h3 h4 h5]
  have "fst (DELETE_leave exDbMirror (Some ''d1'') (Some ''2026-02-05'')) = Inr ()"
    by blast
  with h1 h2 before after show ?thesis by simp
qed


section \<open>The supply of a rookie\<close>




section \<open>A second request for the same date\<close>

text \<open>
  Claim C9. When the user already has a record with status PENDING or APPROVED for the
  date, the \<^verbatim>\<open>POST\<close> of the leave route answers ALREADY_REQUESTED with that status,
  HTTP status 409, and leaves the database as it was. The table satisfies its unique
  index on user and date, and the date is an ISO date (the dates of stored records are).
\<close>

theorem duplicate_request_conflict:
  assumes "uniqueUserDate db" and "getCurrentUser db mockUserId = Some user"
    and "isIsoDate d" and "r \<in> set (t_leaveRequest db)"
    and "lr_userId r = u_id user" and "lr_date r = d"
    and "lr_status r = PENDING \<or> lr_status r = APPROVED"
  shows "POST_leave env db mockUserId (Some d) = (Inl (ALREADY_REQUESTED (lr_status r)), db) \<and>
         httpStatus (ALREADY_REQUESTED (lr_status r)) = 409"
proof -
  from assms(1,4) have "find (\<lambda>x. lr_userId x = lr_userId r \<and> lr_date x = lr_date r)
                          (t_leaveRequest db) = Some r"
    unfolding uniqueUserDate_def by (rule find_user_date)
  with assms(5,6) have f: "find (\<lambda>x. lr_userId x = u_id user \<and> lr_date x = d)
                          (t_leaveRequest db) = Some r" by simp
  from assms(3) have len: "\<not> length d < 1" by (simp add: isIsoDate_def)
  show ?thesis
    unfolding POST_leave_def Let_def using assms(2,3,7) f len by auto
qed

text \<open>
  In the example salon the assistant \<open>a1\<close> has a PENDING request for 6 February and
  asks again.
\<close>

theorem duplicate_request_conflict_witness:
  "uniqueUserDate exDb \<and>
   getCurrentUser exDb (Some ''a1'') = Some (exUser ''a1'' ASSISTANT (Some 1)) \<and>
   isIsoDate ''2026-02-06'' \<and>
   exLeave 2 ''a1'' ''2026-02-06'' PENDING \<in> set (t_leaveRequest exDb) \<and>
   POST_leave exEnv10 exDb (Some ''a1'') (Some ''2026-02-06'') =
     (Inl (ALREADY_REQUESTED PENDING), exDb) \<and>
   httpStatus (ALREADY_REQUESTED PENDING) = 409"
proof -
  have h1: "uniqueUserDate exDb" by code_simp
  have h2: "getCurrentUser exDb (Some ''a1'') = Some (exUser ''a1'' ASSISTANT (Some 1))"
    by code_simp
  have h3: "isIsoDate ''2026-02-06''" by code_simp
  have h4: "exLeave 2 ''a1'' ''2026-02-06'' PENDING \<in> set (t_leaveRequest exDb)"
    by (simp add: exDb_def)
  have h5: "lr_userId (exLeave 2 ''a1'' ''2026-02-06'' PENDING) =
              u_id (exUser ''a1'' ASSISTANT (Some 1))"
    by (simp add: exLeave_def exUser_def)
  have h6: "lr_date (exLeave 2 ''a1'' ''2026-02-06'' PENDING) = ''2026-02-06''"
    by (simp add: exLeave_def)
  have h7: "lr_status (exLeave 2 ''a1'' ''2026-02-06'' PENDING) = PENDING \<or>
            lr_status (exLeave 2 ''a1'' ''2026-02-06'' PENDING) = APPROVED"
    by (simp add: exLeave_def)
  have st: "lr_status (exLeave 2 ''a1'' ''2026-02-06'' PENDING) = PENDING"
    by (simp add: exLeave_def)
  from duplicate_request_conflict [OF h1 h2 h3 h4 h5 h6 h7, of exEnv10] h1 h2 h3 h4
  show ?thesis unfolding st by simp
qed


section \<open>One record for a user and a date\<close>

text \<open>
  Claim C10. In every reachable state a user has at most one leave request record for a
  date, whatever its status: every handler keeps the unique index on user and date, and
  an insert for a user and a date that have a record fails. A self request that is
  accepted when the user has a record for the date (which is then CANCELED or REJECTED)
  sets that record to PENDING, source SELF, created by the user, and the user has no
  other record for the date afterwards. The manager's leave entry for a user who has a
  record of the manager's store for the date sets that record to APPROVED, source
  MANAGER, created by the manager, and inserts no row.
\<close>

theorem one_record_per_user_and_date:
  "(reachable db \<longrightarrow> uniqueUserDate db) \<and>
   (uniqueUserDate db \<longrightarrow> uniqueUserDate (perform db c)) \<and>
   (list_ex (\<lambda>r. lr_userId r = userId \<and> lr_date r = d) (t_leaveRequest db) \<longrightarrow>
      leaveRequest_create storeId userId d status source creator link db =
        Inl UNIQUE_CONSTRAINT) \<and>
   (uniqueUserDate db \<and> uniqueIds db \<and> getCurrentUser db mockUserId = Some user \<and>
    e \<in> set (t_leaveRequest db) \<and> lr_userId e = u_id user \<and> lr_date e = d \<and>
    POST_leave env db mockUserId (Some d) = (Inr lr, db') \<longrightarrow>
      lr = e\<lparr>lr_status := PENDING, lr_source := SELF,
             lr_createdByUserId := Some (u_id user)\<rparr> \<and>
      (lr_status e = CANCELED \<or> lr_status e = REJECTED) \<and>
      lr \<in> set (t_leaveRequest db') \<and>
      list_all (\<lambda>r. lr_userId r = u_id user \<and> lr_date r = d \<longrightarrow> r = lr)
        (t_leaveRequest db')) \<and>
   (uniqueUserDate db \<and> getCurrentUser db mockUserId = Some me \<and> u_role me = MANAGER \<and>
    userId \<noteq> [] \<and> isIsoDate d \<and>
    find (\<lambda>u. u_id u = userId \<and> u_storeId u = u_storeId me \<and> u_active u) (t_user db) =
      Some target \<and>
    e \<in> set (t_leaveRequest db) \<and> lr_userId e = userId \<and> lr_date e = d \<and>
    lr_storeId e = u_storeId me \<longrightarrow>
      fst (createManagerLeave db mockUserId userId d) = None \<and>
      t_leaveRequest (snd (createManagerLeave db mockUserId userId d)) =
        map (\<lambda>r. if lr_id r = lr_id e
                  then r\<lparr>lr_status := APPROVED, lr_source := SOURCE_MANAGER,
                         lr_createdByUserId := Some (u_id me)\<rparr>
                  else r) (t_leaveRequest db))"
proof (intro conjI impI)
  assume "reachable db"
  then show "uniqueUserDate db" using reachable_unique by blast
next
  assume "uniqueUserDate db"
  then show "uniqueUserDate (perform db c)" using perform_unique by blast
next
  assume "list_ex (\<lambda>r. lr_userId r = userId \<and> lr_date r = d) (t_leaveRequest db)"
  then show "leaveRequest_create storeId userId d status source creator link db =
        Inl UNIQUE_CONSTRAINT"
    by (simp add: leaveRequest_create_def)
next
  assume a: "uniqueUserDate db \<and> uniqueIds db \<and> getCurrentUser db mockUserId = Some user \<and>
    e \<in> set (t_leaveRequest db) \<and> lr_userId e = u_id user \<and> lr_date e = d \<and>
    POST_leave env db mockUserId (Some d) = (Inr lr, db')"
  have r: "lr = e\<lparr>lr_status := PENDING, lr_source := SELF,
                         lr_createdByUserId := Some (u_id user)\<rparr> \<and>
      (lr_status e = CANCELED \<or> lr_status e = REJECTED) \<and>
      lr \<in> set (t_leaveRequest db') \<and>
      list_all (\<lambda>r. lr_userId r = u_id user \<and> lr_date r = d \<longrightarrow> r = lr)
        (t_leaveRequest db')"
    by (rule POST_leave_reuses_record [where env = env and mockUserId = mockUserId and db = db])
      (use a in simp_all)
  from r show "lr = e\<lparr>lr_status := PENDING, lr_source := SELF,
             lr_createdByUserId := Some (u_id user)\<rparr>" by blast
  from r show "lr_status e = CANCELED \<or> lr_status e = REJECTED" by blast
  from r show "lr \<in> set (t_leaveRequest db')" by blast
  from r show "list_all (\<lambda>r. lr_userId r = u_id user \<and> lr_date r = d \<longrightarrow> r = lr)
        (t_leaveRequest db')" by blast
next
  assume a: "uniqueUserDate db \<and> getCurrentUser db mockUserId = Some me \<and> u_role me = MANAGER \<and>
    userId \<noteq> [] \<and> isIsoDate d \<and>
    find (\<lambda>u. u_id u = userId \<and> u_storeId u = u_storeId me \<and> u_active u) (t_user db) =
      Some target \<and>
    e \<in> set (t_leaveRequest db) \<and> lr_userId e = userId \<and> lr_date e = d \<and>
    lr_storeId e = u_storeId me"
  then have "createManagerLeave db mockUserId userId d =
           (None, approval_create (u_storeId me) (lr_id e) (u_id me) FORCE_APPROVE None
                    (leaveRequest_update (lr_id e)
                       (\<lambda>r. r\<lparr>lr_status := APPROVED, lr_source := SOURCE_MANAGER,
                              lr_createdByUserId := Some (u_id me)\<rparr>) db))"
    using createManagerLeave_reuses_record(1) [of db mockUserId me userId d target e] by blast
  then show "fst (createManagerLeave db mockUserId userId d) = None"
    and "t_leaveRequest (snd (createManagerLeave db mockUserId userId d)) =
        map (\<lambda>r. if lr_id r = lr_id e
                  then r\<lparr>lr_status := APPROVED, lr_source := SOURCE_MANAGER,
                         lr_createdByUserId := Some (u_id me)\<rparr>
                  else r) (t_leaveRequest db)"
    by (simp_all add: approval_create_tables leaveRequest_update_tables)
qed

text \<open>
  In the example salon the rookie \<open>r1\<close> has the CANCELED record 3 for 7 February. A new
  request of \<open>r1\<close> on the tenth sets the record 3 to PENDING, and the manager's entry
  sets it to APPROVED; the table keeps its four rows in both cases. From the empty table
  the designer's request leads to a reachable state, which has one record for a user and
  a date.
\<close>

theorem one_record_per_user_and_date_witness:
  "reachable (perform exDbEmpty (Call_POST_leave exEnv3 (Some ''d1'') (Some ''2026-02-05''))) \<and>
   uniqueUserDate (perform exDbEmpty (Call_POST_leave exEnv3 (Some ''d1'') (Some ''2026-02-05''))) \<and>
   length (t_leaveRequest
     (perform exDbEmpty (Call_POST_leave exEnv3 (Some ''d1'') (Some ''2026-02-05'')))) = 2 \<and>
   uniqueUserDate exDb \<and> uniqueIds exDb \<and>
   leaveRequest_create ''s1'' ''r1'' ''2026-02-07'' PENDING SELF (Some ''r1'') None exDb =
     Inl UNIQUE_CONSTRAINT \<and>
   fst (POST_leave exEnv10 exDb (Some ''r1'') (Some ''2026-02-07'')) =
     Inr ((exLeave 3 ''r1'' ''2026-02-07'' CANCELED)\<lparr>lr_status := PENDING\<rparr>) \<and>
   map (\<lambda>r. (lr_id r, lr_userId r, lr_date r, lr_status r))
     (t_leaveRequest (snd (POST_leave exEnv10 exDb (Some ''r1'') (Some ''2026-02-07'')))) =
     [(0, ''a2'', ''2026-02-05'', PENDING), (1, ''d2'', ''2026-02-05'', APPROVED),
      (2, ''a1'', ''2026-02-06'', PENDING), (3, ''r1'', ''2026-02-07'', PENDING)] \<and>
   map (\<lambda>r. (lr_id r, lr_userId r, lr_date r, lr_status r, lr_source r))
     (t_leaveRequest (snd (createManagerLeave exDb (Some ''m1'') ''r1'' ''2026-02-07''))) =
     [(0, ''a2'', ''2026-02-05'', PENDING, SELF), (1, ''d2'', ''2026-02-05'', APPROVED, SELF),
      (2, ''a1'', ''2026-02-06'', PENDING, SELF),
      (3, ''r1'', ''2026-02-07'', APPROVED, SOURCE_MANAGER)]"
proof -
  let ?c = "Call_POST_leave exEnv3 (Some ''d1'') (Some ''2026-02-05'')"
  have "reachable exDbEmpty" by (rule r_init) (simp add: exDbEmpty_def)
  then have reach: "reachable (perform exDbEmpty ?c)" by (rule r_call)
  from one_record_per_user_and_date [of "perform exDbEmpty ?c"] reach
  have uniq: "uniqueUserDate (perform exDbEmpty ?c)" by blast
  have len: "length (t_leaveRequest (perform exDbEmpty ?c)) = 2" by code_simp
  have u1: "uniqueUserDate exDb" by code_simp
  have u2: "uniqueIds exDb" by code_simp
  have ex: "list_ex (\<lambda>r. lr_userId r = ''r1'' \<and> lr_date r = ''2026-02-07'') (t_leaveRequest exDb)"
    by code_simp
  from one_record_per_user_and_date [of exDb _ "''r1''" "''2026-02-07''" "''s1''" PENDING SELF
      "Some ''r1''" None] ex
  have dup: "leaveRequest_create ''s1'' ''r1'' ''2026-02-07'' PENDING SELF (Some ''r1'') None exDb =
     Inl UNIQUE_CONSTRAINT" by blast
  have post: "fst (POST_leave exEnv10 exDb (Some ''r1'') (Some ''2026-02-07'')) =
     Inr ((exLeave 3 ''r1'' ''2026-02-07'' CANCELED)\<lparr>lr_status := PENDING\<rparr>)"
    by code_simp
  have rows: "map (\<lambda>r. (lr_id r, lr_userId r, lr_date r, lr_status r))
     (t_leaveRequest (snd (POST_leave exEnv10 exDb (Some ''r1'') (Some ''2026-02-07'')))) =
     [(0, ''a2'', ''2026-02-05'', PENDING), (1, ''d2'', ''2026-02-05'', APPROVED),
      (2, ''a1'', ''2026-02-06'', PENDING), (3, ''r1'', ''2026-02-07'', PENDING)]"
    by code_simp
  have mgr: "map (\<lambda>r. (lr_id r, lr_userId r, lr_date r, lr_status r, lr_source r))
     (t_leaveRequest (snd (createManagerLeave exDb (Some ''m1'') ''r1'' ''2026-02-07''))) =
     [(0, ''a2'', ''2026-02-05'', PENDING, SELF), (1, ''d2'', ''2026-02-05'', APPROVED, SELF),
      (2, ''a1'', ''2026-02-06'', PENDING, SELF),
      (3, ''r1'', ''2026-02-07'', APPROVED, SOURCE_MANAGER)]"
    by code_simp
  from reach uniq len u1 u2 dup post rows mgr show ?thesis by simp
qed


end
